theory Spec2Isabelle
  imports Main
begin

section \<open>C array comparison and assignment\<close>

text \<open>
  The two headers are templates: every operation is selected at compile time from the
  operand types and then runs on the operand values. The embedding keeps both levels.
  Types are data (\<open>qtype\<close>), a constraint (\<^verbatim>\<open>requires\<close>, \<^verbatim>\<open>concept\<close>,
  \<^verbatim>\<open>if constexpr\<close>, \<^verbatim>\<open>static_assert\<close>) is a boolean function of types, and an
  operation takes the types it was instantiated with next to the values. A call whose
  constraint fails yields \<open>Inl Ill_formed\<close> (the translation unit does not compile); a call
  that compiles and then leaves defined behaviour yields \<open>Inl Undefined\<close>.
\<close>

subsection \<open>Types\<close>

text \<open>
  \<open>Array n t\<close> is the type \<^verbatim>\<open>t[n]\<close>, so \<^verbatim>\<open>int[2][3]\<close> is
  \<open>Array 2 (Array 3 (Elem int))\<close>. A \<open>qtype\<close> adds what a deduced template argument
  carries besides: cv-qualification (of the innermost element, for an array) and the
  reference kind.
\<close>

datatype 'e ctype = Elem 'e | Array nat "'e ctype"

datatype refq = NoRef | LRef | RRef

record 'e qtype =
  q_const :: bool
  q_volatile :: bool
  q_ref :: refq
  q_core :: "'e ctype"

datatype failure = Ill_formed | Undefined

text \<open>The forms of types the headers write: \<^verbatim>\<open>T\<close>, \<^verbatim>\<open>T&\<close>, \<^verbatim>\<open>T&&\<close> under reference
  collapsing, \<^verbatim>\<open>A const&\<close>, and the standard library's \<^verbatim>\<open>remove_cvref_t\<close>,
  \<^verbatim>\<open>remove_reference_t\<close> and \<^verbatim>\<open>extent_v\<close>.\<close>

definition plain :: "'e ctype \<Rightarrow> 'e qtype" where
  "plain t = \<lparr>q_const = False, q_volatile = False, q_ref = NoRef, q_core = t\<rparr>"

definition lref :: "'e qtype \<Rightarrow> 'e qtype" where
  "lref T = T\<lparr>q_ref := LRef\<rparr>"

definition rref :: "'e qtype \<Rightarrow> 'e qtype" where
  "rref T = (if q_ref T = LRef then T else T\<lparr>q_ref := RRef\<rparr>)"

definition const_lref :: "'e qtype \<Rightarrow> 'e qtype" where
  "const_lref A = A\<lparr>q_const := True, q_ref := LRef\<rparr>"

definition remove_cvref_t :: "'e qtype \<Rightarrow> 'e qtype" where
  "remove_cvref_t T = plain (q_core T)"

definition remove_reference_t :: "'e qtype \<Rightarrow> 'e qtype" where
  "remove_reference_t T = T\<lparr>q_ref := NoRef\<rparr>"

definition std_extent_v :: "'e qtype \<Rightarrow> nat" where
  "std_extent_v T =
     (if q_ref T \<noteq> NoRef then 0
      else case q_core T of Elem _ \<Rightarrow> 0 | Array n _ \<Rightarrow> n)"

subsection \<open>Shape and flattening\<close>

text \<open>
  Both headers include \<^verbatim>\<open>c_array_support.hpp\<close>, which is not among the sources
  at hand. Its names are given the meaning the specification describes.
\<close>

text \<open>Modelled from the spec: the extents of a type, outermost first (the header
  \<^verbatim>\<open>c_array_support.hpp\<close> is missing). "Shape: nesting depth + per-level extent of
  a fixed-size array type, independent of element type."\<close>

fun extents :: "'e ctype \<Rightarrow> nat list" where
  "extents (Elem _) = []"
| "extents (Array n t) = n # extents t"

text \<open>Modelled from the spec: \<^verbatim>\<open>remove_all_extents\<close> on the unqualified type (the
  header \<^verbatim>\<open>c_array_support.hpp\<close> is missing). "Innermost element type: the
  non-array type obtained after stripping all array dimensions from a type."\<close>

fun innermost :: "'e ctype \<Rightarrow> 'e ctype" where
  "innermost (Elem e) = Elem e"
| "innermost (Array n t) = innermost t"

text \<open>Modelled from the spec: the concept \<^verbatim>\<open>c_array\<close> (the header
  \<^verbatim>\<open>c_array_support.hpp\<close> is missing). "true iff T, after stripping
  reference/cv-qualification, is a fixed-size array type (any dimensionality \<ge> 1)."\<close>

definition c_array :: "'e qtype \<Rightarrow> bool" where
  "c_array T = (case q_core T of Elem _ \<Rightarrow> False | Array _ _ \<Rightarrow> True)"

text \<open>Modelled from the spec: \<^verbatim>\<open>all_extents_removed_t\<close> (the header
  \<^verbatim>\<open>c_array_support.hpp\<close> is missing). "strips all array dimensions, returns the
  leaf element type with T's reference/cv-qualification applied consistently ... For
  non-array T, returns T unchanged."\<close>

definition all_extents_removed_t :: "'e qtype \<Rightarrow> 'e qtype" where
  "all_extents_removed_t T = T\<lparr>q_core := innermost (q_core T)\<rparr>"

text \<open>Modelled from the spec: \<^verbatim>\<open>extent_removed_t\<close>, one array layer stripped with
  the qualification kept, as \<^verbatim>\<open>all_extents_removed_t\<close> keeps it (the header
  \<^verbatim>\<open>c_array_support.hpp\<close> is missing; the specification describes only the
  all-layers form).\<close>

definition extent_removed_t :: "'e qtype \<Rightarrow> 'e qtype" where
  "extent_removed_t T =
     T\<lparr>q_core := (case q_core T of Elem e \<Rightarrow> Elem e | Array _ t \<Rightarrow> t)\<rparr>"

text \<open>Modelled from the spec: \<^verbatim>\<open>same_extents\<close> (the header \<^verbatim>\<open>c_array_support.hpp\<close> is
  missing). "true iff, after stripping references/cv, both are non-array or both are
  arrays with identical nesting depth and identical extent at each nesting level."\<close>

definition same_extents :: "'e qtype \<Rightarrow> 'e qtype \<Rightarrow> bool" where
  "same_extents L R = (extents (q_core L) = extents (q_core R))"

text \<open>Modelled from the spec: \<^verbatim>\<open>flat_size\<close> (the header \<^verbatim>\<open>c_array_support.hpp\<close> is
  missing). "the product of all dimension extents; 1 for non-array T."\<close>

definition flat_size :: "'e qtype \<Rightarrow> nat" where
  "flat_size T = prod_list (extents (q_core T))"

subsection \<open>Values\<close>

text \<open>An object of array type holds its elements in order; an object of any other type
  is a leaf of the element universe \<open>'v\<close>.\<close>

datatype 'v cval = Val 'v | Arr "'v cval list"

fun has_shape :: "nat list \<Rightarrow> 'v cval \<Rightarrow> bool" where
  "has_shape [] (Val _) = True"
| "has_shape (n # ns) (Arr xs) = (length xs = n \<and> (\<forall>x \<in> set xs. has_shape ns x))"
| "has_shape _ _ = False"

definition has_type :: "'e qtype \<Rightarrow> 'v cval \<Rightarrow> bool" where
  "has_type T v = has_shape (extents (q_core T)) v"

text \<open>Modelled from the spec: the linearization behind \<^verbatim>\<open>flat_index\<close> (the header
  \<^verbatim>\<open>c_array_support.hpp\<close> is missing). "a conceptual linearization of a (possibly
  nested) array into a sequence of \<^verbatim>\<open>total_extent\<close> innermost elements in row-major
  order."\<close>

fun flatten :: "'v cval \<Rightarrow> 'v list" where
  "flatten (Val x) = [x]"
| "flatten (Arr xs) = concat (map flatten xs)"

text \<open>Modelled from the spec: \<^verbatim>\<open>flat_index(a, i)\<close> read as a value (the header
  \<^verbatim>\<open>c_array_support.hpp\<close> is missing). "given a (possibly nested, possibly rvalue)
  array and an index 0 \<le> i < \<^verbatim>\<open>total_extent\<close>, returns a reference to the i-th
  innermost element in row-major order"; an index out of range "is a compile-time or
  undefined-behavior condition", here \<open>None\<close>.\<close>

definition flat_index :: "'v cval \<Rightarrow> nat \<Rightarrow> 'v option" where
  "flat_index a i = (if i < length (flatten a) then Some (flatten a ! i) else None)"

text \<open>Modelled from the spec: a store through the reference \<^verbatim>\<open>flat_index(a, i)\<close> (the
  header \<^verbatim>\<open>c_array_support.hpp\<close> is missing): the i-th innermost element in
  row-major order is replaced, every other element is kept.\<close>

fun flat_update :: "'v cval \<Rightarrow> nat \<Rightarrow> 'v \<Rightarrow> 'v cval"
  and flat_update_list :: "'v cval list \<Rightarrow> nat \<Rightarrow> 'v \<Rightarrow> 'v cval list" where
  "flat_update (Val y) i x = (if i = 0 then Val x else Val y)"
| "flat_update (Arr xs) i x = Arr (flat_update_list xs i x)"
| "flat_update_list [] i x = []"
| "flat_update_list (a # as) i x =
     (if i < length (flatten a) then flat_update a i x # as
      else a # flat_update_list as (i - length (flatten a)) x)"

subsection \<open>The standard library and the language\<close>

text \<open>
  What the headers ask of \<^verbatim>\<open><compare>\<close>, \<^verbatim>\<open><concepts>\<close> and the core language
  about the types at hand is a parameter: one field for each standard concept or trait
  the headers name, and one for each \<^verbatim>\<open>requires\<close>-expression they write out.
\<close>

record 'e std_env =
  t_int :: 'e
  std_three_way_comparable_with :: "'e qtype \<Rightarrow> 'e qtype \<Rightarrow> bool"
  std_equality_comparable_with :: "'e qtype \<Rightarrow> 'e qtype \<Rightarrow> bool"
  std_totally_ordered_with :: "'e qtype \<Rightarrow> 'e qtype \<Rightarrow> bool"
  std_convertible_to_cv_void_ptr :: "'e qtype \<Rightarrow> bool"
  expr_eq_is_bool :: "'e qtype \<Rightarrow> 'e qtype \<Rightarrow> bool"
  expr_lt_is_bool :: "'e qtype \<Rightarrow> 'e qtype \<Rightarrow> bool"
  free_operator_eq :: "'e qtype \<Rightarrow> 'e qtype \<Rightarrow> bool"
  member_operator_eq :: "'e qtype \<Rightarrow> 'e qtype \<Rightarrow> bool"
  free_operator_lt :: "'e qtype \<Rightarrow> 'e qtype \<Rightarrow> bool"
  member_operator_lt :: "'e qtype \<Rightarrow> 'e qtype \<Rightarrow> bool"
  std_copyable :: "'e qtype \<Rightarrow> bool"
  std_assignable_from :: "'e qtype \<Rightarrow> 'e qtype \<Rightarrow> bool"
  std_is_assignable_v :: "'e qtype \<Rightarrow> 'e qtype \<Rightarrow> bool"
  std_is_copy_assignable_v :: "'e qtype \<Rightarrow> bool"
  std_is_move_assignable_v :: "'e qtype \<Rightarrow> bool"
  std_is_trivially_copy_assignable_v :: "'e qtype \<Rightarrow> bool"
  std_is_trivially_move_assignable_v :: "'e qtype \<Rightarrow> bool"
  std_is_nothrow_copy_assignable_v :: "'e qtype \<Rightarrow> bool"
  std_is_nothrow_move_assignable_v :: "'e qtype \<Rightarrow> bool"
  user_assign_to :: "'e qtype \<Rightarrow> bool"

text \<open>
  \<open>expr_eq_is_bool env P Q\<close> is \<^verbatim>\<open>requires (P&& l, Q&& r) { {l == r} -> std::same_as<bool>; }\<close>,
  \<open>free_operator_eq\<close> is \<^verbatim>\<open>requires(P&& l, Q&& r) { operator==(static_cast<P&&>(l), static_cast<Q&&>(r)); }\<close>,
  \<open>member_operator_eq\<close> is the same with \<^verbatim>\<open>static_cast<P&&>(l).operator==(...)\<close>, and
  likewise for \<^verbatim>\<open><\<close>. \<open>user_assign_to env T\<close> says that a specialization of
  \<^verbatim>\<open>assign_to<T>\<close> other than the header's own is in scope.
\<close>

subsection \<open>Comparison concepts\<close>

definition three_way_comparable_with :: "'e std_env \<Rightarrow> 'e qtype \<Rightarrow> 'e qtype \<Rightarrow> bool" where
  "three_way_comparable_with env L R =
     (std_three_way_comparable_with env (all_extents_removed_t L) (all_extents_removed_t R)
      \<and> same_extents (remove_cvref_t L) (remove_cvref_t R))"

definition equality_comparable_with :: "'e std_env \<Rightarrow> 'e qtype \<Rightarrow> 'e qtype \<Rightarrow> bool" where
  "equality_comparable_with env L R =
     (std_equality_comparable_with env (all_extents_removed_t L) (all_extents_removed_t R)
      \<and> same_extents (remove_cvref_t L) (remove_cvref_t R))"

definition totally_ordered_with :: "'e std_env \<Rightarrow> 'e qtype \<Rightarrow> 'e qtype \<Rightarrow> bool" where
  "totally_ordered_with env L R =
     (std_totally_ordered_with env (all_extents_removed_t L) (all_extents_removed_t R)
      \<and> same_extents (remove_cvref_t L) (remove_cvref_t R))"

definition pointer_equality_comparable_with ::
  "'e std_env \<Rightarrow> 'e qtype \<Rightarrow> 'e qtype \<Rightarrow> bool" where
  "pointer_equality_comparable_with env P Q =
     (\<not> c_array P \<and> \<not> c_array Q
      \<and> expr_eq_is_bool env P Q
      \<and> std_convertible_to_cv_void_ptr env P
      \<and> std_convertible_to_cv_void_ptr env Q
      \<and> (\<not> free_operator_eq env P Q \<and> \<not> member_operator_eq env P Q))"

definition pointer_less_than_comparable_with ::
  "'e std_env \<Rightarrow> 'e qtype \<Rightarrow> 'e qtype \<Rightarrow> bool" where
  "pointer_less_than_comparable_with env P Q =
     (\<not> c_array P \<and> \<not> c_array Q
      \<and> expr_lt_is_bool env P Q
      \<and> std_convertible_to_cv_void_ptr env P
      \<and> std_convertible_to_cv_void_ptr env Q
      \<and> (\<not> free_operator_lt env P Q \<and> \<not> member_operator_lt env P Q))"

text \<open>The \<^verbatim>\<open>requires\<close>-clauses of the four functors' call operators.\<close>

definition compare_three_way_requires :: "'e std_env \<Rightarrow> 'e qtype \<Rightarrow> 'e qtype \<Rightarrow> bool" where
  "compare_three_way_requires env L R = three_way_comparable_with env L R"

definition equal_to_requires :: "'e std_env \<Rightarrow> 'e qtype \<Rightarrow> 'e qtype \<Rightarrow> bool" where
  "equal_to_requires env L R =
     (equality_comparable_with env L R
      \<or> pointer_equality_comparable_with env
           (all_extents_removed_t L) (all_extents_removed_t R))"

definition not_equal_to_requires :: "'e std_env \<Rightarrow> 'e qtype \<Rightarrow> 'e qtype \<Rightarrow> bool" where
  "not_equal_to_requires env L R =
     (equality_comparable_with env L R
      \<or> pointer_equality_comparable_with env
           (all_extents_removed_t L) (all_extents_removed_t R))"

definition less_requires :: "'e std_env \<Rightarrow> 'e qtype \<Rightarrow> 'e qtype \<Rightarrow> bool" where
  "less_requires env L R =
     (totally_ordered_with env L R
      \<or> pointer_less_than_comparable_with env
           (all_extents_removed_t L) (all_extents_removed_t R))"

subsection \<open>Assignment traits and concepts\<close>

definition is_copyable_array :: "'e std_env \<Rightarrow> bool" where
  "is_copyable_array env = std_copyable env (plain (Array 1 (Elem (t_int env))))"

definition assignable_from :: "'e std_env \<Rightarrow> 'e qtype \<Rightarrow> 'e qtype \<Rightarrow> bool" where
  "assignable_from env L R =
     (if is_copyable_array env \<or> \<not> c_array L
      then std_assignable_from env L R
      else std_assignable_from env (all_extents_removed_t L) (all_extents_removed_t R)
           \<and> same_extents (remove_cvref_t L) (remove_cvref_t R))"

definition is_assignable_v :: "'e std_env \<Rightarrow> 'e qtype \<Rightarrow> 'e qtype \<Rightarrow> bool" where
  "is_assignable_v env T U =
     (if is_copyable_array env \<or> \<not> c_array T
      then std_is_assignable_v env T U
      else std_is_assignable_v env (all_extents_removed_t T) (all_extents_removed_t U))"

definition is_copy_assignable_v :: "'e std_env \<Rightarrow> 'e qtype \<Rightarrow> bool" where
  "is_copy_assignable_v env T =
     (if is_copyable_array env
      then std_is_copy_assignable_v env T
      else std_is_copy_assignable_v env (all_extents_removed_t T))"

definition is_move_assignable_v :: "'e std_env \<Rightarrow> 'e qtype \<Rightarrow> bool" where
  "is_move_assignable_v env T =
     (if is_copyable_array env
      then std_is_move_assignable_v env T
      else std_is_move_assignable_v env (all_extents_removed_t T))"

definition is_trivially_copy_assignable_v :: "'e std_env \<Rightarrow> 'e qtype \<Rightarrow> bool" where
  "is_trivially_copy_assignable_v env T =
     (if is_copyable_array env
      then std_is_trivially_copy_assignable_v env T
      else std_is_trivially_copy_assignable_v env (all_extents_removed_t T))"

definition is_trivially_move_assignable_v :: "'e std_env \<Rightarrow> 'e qtype \<Rightarrow> bool" where
  "is_trivially_move_assignable_v env T =
     (if is_copyable_array env
      then std_is_trivially_move_assignable_v env T
      else std_is_trivially_move_assignable_v env (all_extents_removed_t T))"

definition is_nothrow_copy_assignable_v :: "'e std_env \<Rightarrow> 'e qtype \<Rightarrow> bool" where
  "is_nothrow_copy_assignable_v env T =
     (if is_copyable_array env
      then std_is_nothrow_copy_assignable_v env T
      else std_is_nothrow_copy_assignable_v env (all_extents_removed_t T))"

definition is_nothrow_move_assignable_v :: "'e std_env \<Rightarrow> 'e qtype \<Rightarrow> bool" where
  "is_nothrow_move_assignable_v env T =
     (if is_copyable_array env
      then std_is_nothrow_move_assignable_v env T
      else std_is_nothrow_move_assignable_v env (all_extents_removed_t T))"

text \<open>\<^verbatim>\<open>assign_toable<L>\<close> holds when \<^verbatim>\<open>assign_to<L>\<close> is a complete type: when the
  header's specialization for arrays (\<^verbatim>\<open>template <c_array L> requires (! std::copyable<L>)\<close>)
  matches, or another specialization is in scope.\<close>

definition assign_to_array_specialization :: "'e std_env \<Rightarrow> 'e qtype \<Rightarrow> bool" where
  "assign_to_array_specialization env L = (c_array L \<and> \<not> std_copyable env L)"

definition assign_toable :: "'e std_env \<Rightarrow> 'e qtype \<Rightarrow> bool" where
  "assign_toable env L = (assign_to_array_specialization env L \<or> user_assign_to env L)"

subsection \<open>Element operations\<close>

text \<open>
  The operators of the innermost element types are parameters as well: \<^verbatim>\<open>==\<close>,
  \<^verbatim>\<open>!=\<close>, \<^verbatim>\<open><\<close>, \<^verbatim>\<open>std::compare_three_way{}\<close>, \<^verbatim>\<open>=\<close> (the value the left
  operand holds afterwards), and for a pointer the unsigned integer that
  \<^verbatim>\<open>reinterpret_cast<UINTPTR>(static_cast<void const volatile*>(p))\<close> yields.
  \<open>op_user_assign\<close> is \<^verbatim>\<open>operator=\<close> of a specialization of \<^verbatim>\<open>assign_to\<close>
  that is not the header's.
\<close>

datatype ordering_result = Less | Equivalent | Greater | Unordered

record 'v elem_ops =
  op_eq :: "'v \<Rightarrow> 'v \<Rightarrow> bool"
  op_ne :: "'v \<Rightarrow> 'v \<Rightarrow> bool"
  op_lt :: "'v \<Rightarrow> 'v \<Rightarrow> bool"
  op_compare_three_way :: "'v \<Rightarrow> 'v \<Rightarrow> ordering_result"
  op_uintptr :: "'v \<Rightarrow> nat"
  op_assign :: "'v \<Rightarrow> 'v \<Rightarrow> 'v"
  op_user_assign :: "'v cval \<Rightarrow> 'v cval \<Rightarrow> 'v cval"

text \<open>The loops count with an \<^verbatim>\<open>int\<close>: \<^verbatim>\<open>for (int i = 0; i != flat_size<L>; ++i)\<close>.
  Incrementing it past \<open>INT_MAX\<close> (a 32-bit \<^verbatim>\<open>int\<close>) is undefined.\<close>

definition INT_MAX :: nat where
  "INT_MAX = 2147483647"

subsection \<open>The comparison functors\<close>

text \<open>
  Each call operator is its \<^verbatim>\<open>requires\<close>-clause, then the branches of its body in the
  order of the source. A branch that hands the operands to the operator of their own
  type applies the element operation to two leaves; an array operand there is taken as
  ill-formed.
\<close>

function compare_three_way_loop ::
  "'v elem_ops \<Rightarrow> nat \<Rightarrow> 'v cval \<Rightarrow> 'v cval \<Rightarrow> nat \<Rightarrow> failure + ordering_result" where
  "compare_three_way_loop ops n l r i =
     (if i = n then Inr Equivalent
      else case (flat_index l i, flat_index r i) of
             (Some a, Some b) \<Rightarrow>
               (let c = op_compare_three_way ops a b in
                if c \<noteq> Equivalent then Inr c
                else if i < INT_MAX then compare_three_way_loop ops n l r (i + 1)
                else Inl Undefined)
           | _ \<Rightarrow> Inl Undefined)"
  by pat_completeness auto
termination
  by (relation "measure (\<lambda>(ops, n, l, r, i). INT_MAX - i)") auto

definition compare_three_way ::
  "'e std_env \<Rightarrow> 'v elem_ops \<Rightarrow> 'e qtype \<Rightarrow> 'e qtype \<Rightarrow> 'v cval \<Rightarrow> 'v cval
   \<Rightarrow> failure + ordering_result" where
  "compare_three_way env ops L R l r =
     (if \<not> compare_three_way_requires env L R then Inl Ill_formed
      else if std_three_way_comparable_with env L R
      then (case (l, r) of
              (Val a, Val b) \<Rightarrow> Inr (op_compare_three_way ops a b)
            | _ \<Rightarrow> Inl Ill_formed)
      else compare_three_way_loop ops (flat_size L) l r 0)"

function equal_to_loop ::
  "'v elem_ops \<Rightarrow> nat \<Rightarrow> 'v cval \<Rightarrow> 'v cval \<Rightarrow> nat \<Rightarrow> failure + bool" where
  "equal_to_loop ops n l r i =
     (if i = n then Inr True
      else case (flat_index l i, flat_index r i) of
             (Some a, Some b) \<Rightarrow>
               (if op_ne ops a b then Inr False
                else if i < INT_MAX then equal_to_loop ops n l r (i + 1)
                else Inl Undefined)
           | _ \<Rightarrow> Inl Undefined)"
  by pat_completeness auto
termination
  by (relation "measure (\<lambda>(ops, n, l, r, i). INT_MAX - i)") auto

definition equal_to ::
  "'e std_env \<Rightarrow> 'v elem_ops \<Rightarrow> 'e qtype \<Rightarrow> 'e qtype \<Rightarrow> 'v cval \<Rightarrow> 'v cval
   \<Rightarrow> failure + bool" where
  "equal_to env ops L R l r =
     (if \<not> equal_to_requires env L R then Inl Ill_formed
      else if \<not> c_array L
      then (case (l, r) of
              (Val a, Val b) \<Rightarrow> Inr (op_eq ops a b)
            | _ \<Rightarrow> Inl Ill_formed)
      else equal_to_loop ops (flat_size L) l r 0)"

definition not_equal_to ::
  "'e std_env \<Rightarrow> 'v elem_ops \<Rightarrow> 'e qtype \<Rightarrow> 'e qtype \<Rightarrow> 'v cval \<Rightarrow> 'v cval
   \<Rightarrow> failure + bool" where
  "not_equal_to env ops L R l r =
     (if \<not> not_equal_to_requires env L R then Inl Ill_formed
      else map_sum id Not (equal_to env ops L R l r))"

function less_loop ::
  "'v elem_ops \<Rightarrow> nat \<Rightarrow> 'v cval \<Rightarrow> 'v cval \<Rightarrow> nat \<Rightarrow> failure + bool" where
  "less_loop ops n l r i =
     (if i = n then Inr False
      else case (flat_index l i, flat_index r i) of
             (Some a, Some b) \<Rightarrow>
               (if op_ne ops a b then Inr (op_lt ops a b)
                else if i < INT_MAX then less_loop ops n l r (i + 1)
                else Inl Undefined)
           | _ \<Rightarrow> Inl Undefined)"
  by pat_completeness auto
termination
  by (relation "measure (\<lambda>(ops, n, l, r, i). INT_MAX - i)") auto

text \<open>\<open>ce\<close> is \<^verbatim>\<open>std::is_constant_evaluated()\<close>.\<close>

definition less_fn ::
  "'e std_env \<Rightarrow> 'v elem_ops \<Rightarrow> bool \<Rightarrow> 'e qtype \<Rightarrow> 'e qtype \<Rightarrow> 'v cval \<Rightarrow> 'v cval
   \<Rightarrow> failure + bool" where
  "less_fn env ops ce L R l r =
     (if \<not> less_requires env L R then Inl Ill_formed
      else if pointer_less_than_comparable_with env L R
      then (case (l, r) of
              (Val p, Val q) \<Rightarrow>
                if ce then Inr (op_lt ops p q)
                else Inr (op_uintptr ops p < op_uintptr ops q)
            | _ \<Rightarrow> Inl Ill_formed)
      else if \<not> c_array L
      then (case (l, r) of
              (Val a, Val b) \<Rightarrow> Inr (op_lt ops a b)
            | _ \<Rightarrow> Inl Ill_formed)
      else less_loop ops (flat_size L) l r 0)"

text \<open>The second call operator of each functor,
  \<^verbatim>\<open>template <typename A> operator()(A const& l, A const& r)\<close>, forwards to the first
  with both parameters \<^verbatim>\<open>A const&\<close>.\<close>

definition compare_three_way_same ::
  "'e std_env \<Rightarrow> 'v elem_ops \<Rightarrow> 'e qtype \<Rightarrow> 'v cval \<Rightarrow> 'v cval \<Rightarrow> failure + ordering_result" where
  "compare_three_way_same env ops A l r =
     compare_three_way env ops (const_lref A) (const_lref A) l r"

definition equal_to_same ::
  "'e std_env \<Rightarrow> 'v elem_ops \<Rightarrow> 'e qtype \<Rightarrow> 'v cval \<Rightarrow> 'v cval \<Rightarrow> failure + bool" where
  "equal_to_same env ops A l r = equal_to env ops (const_lref A) (const_lref A) l r"

definition not_equal_to_same ::
  "'e std_env \<Rightarrow> 'v elem_ops \<Rightarrow> 'e qtype \<Rightarrow> 'v cval \<Rightarrow> 'v cval \<Rightarrow> failure + bool" where
  "not_equal_to_same env ops A l r = not_equal_to env ops (const_lref A) (const_lref A) l r"

definition less_same ::
  "'e std_env \<Rightarrow> 'v elem_ops \<Rightarrow> bool \<Rightarrow> 'e qtype \<Rightarrow> 'v cval \<Rightarrow> 'v cval \<Rightarrow> failure + bool" where
  "less_same env ops ce A l r = less_fn env ops ce (const_lref A) (const_lref A) l r"

subsection \<open>Assignment\<close>

text \<open>
  Assignment writes into storage the caller owns, so an lvalue is modelled by what can be
  done with it: reading the object it designates out of a program state and writing one
  back. Two lvalues may designate the same object. The right operand of an element
  assignment is only read.
\<close>

record ('s, 'v) lvalue =
  lv_get :: "'s \<Rightarrow> 'v cval"
  lv_put :: "'s \<Rightarrow> 'v cval \<Rightarrow> 's"

function assign_loop ::
  "'v elem_ops \<Rightarrow> nat \<Rightarrow> ('s, 'v) lvalue \<Rightarrow> ('s, 'v) lvalue \<Rightarrow> nat \<Rightarrow> 's \<Rightarrow> failure + 's" where
  "assign_loop ops n l r i s =
     (if i = n then Inr s
      else case (flat_index (lv_get l s) i, flat_index (lv_get r s) i) of
             (Some a, Some b) \<Rightarrow>
               (let s' = lv_put l s (flat_update (lv_get l s) i (op_assign ops a b)) in
                if i < INT_MAX then assign_loop ops n l r (i + 1) s'
                else Inl Undefined)
           | _ \<Rightarrow> Inl Undefined)"
  by pat_completeness auto
termination
  by (relation "measure (\<lambda>(ops, n, l, r, i, s). INT_MAX - i)") auto

text \<open>\<^verbatim>\<open>value_type const& r\<close> accepts an argument of the same array type, adding
  \<^verbatim>\<open>const\<close>.\<close>

definition binds_to_const_lref :: "'e qtype \<Rightarrow> 'e qtype \<Rightarrow> bool" where
  "binds_to_const_lref V R = (q_core R = q_core V \<and> (q_volatile R \<longrightarrow> q_volatile V))"

text \<open>
  \<^verbatim>\<open>assign_to<L>::operator=\<close> for an array operand: the template overload
  \<^verbatim>\<open>template <c_array R> requires assignable_from<L, R&&> operator=(R&& r)\<close> and the
  overload \<^verbatim>\<open>operator=(value_type const& r)\<close>, whose body compiles when the element
  assignment does. Both run the same loop and return \<^verbatim>\<open>l\<close>. The third overload,
  \<^verbatim>\<open>operator=(std::true_type)\<close> for an empty brace list, takes no array operand and
  is not part of this development.
\<close>

definition assign_to_assign ::
  "'e std_env \<Rightarrow> 'v elem_ops \<Rightarrow> 'e qtype \<Rightarrow> 'e qtype \<Rightarrow> ('s, 'v) lvalue \<Rightarrow> ('s, 'v) lvalue
   \<Rightarrow> 's \<Rightarrow> failure + (('s, 'v) lvalue \<times> 's)" where
  "assign_to_assign env ops L R l r s =
     (if (c_array R \<and> assignable_from env L (rref R))
         \<or> (binds_to_const_lref (remove_reference_t L) R
             \<and> std_is_assignable_v env (lref (all_extents_removed_t L))
                  (const_lref (all_extents_removed_t (remove_reference_t L))))
      then (case assign_loop ops (flat_size L) l r 0 s of
              Inl e \<Rightarrow> Inl e
            | Inr s' \<Rightarrow> Inr (l, s'))
      else Inl Ill_formed)"

text \<open>The built-in (or the class's own) \<^verbatim>\<open>l = r\<close> on operands that are not arrays.
  Array operands are ill-formed here, as they are in the language today.\<close>

definition native_assign ::
  "'e std_env \<Rightarrow> 'v elem_ops \<Rightarrow> 'e qtype \<Rightarrow> 'e qtype \<Rightarrow> ('s, 'v) lvalue \<Rightarrow> ('s, 'v) lvalue
   \<Rightarrow> 's \<Rightarrow> failure + (('s, 'v) lvalue \<times> 's)" where
  "native_assign env ops T R l r s =
     (if \<not> std_is_assignable_v env T R then Inl Ill_formed
      else case (lv_get l s, lv_get r s) of
             (Val a, Val b) \<Rightarrow> Inr (l, lv_put l s (Val (op_assign ops a b)))
           | _ \<Rightarrow> Inl Ill_formed)"

text \<open>\<^verbatim>\<open>assign(L&& l)\<close> returns \<^verbatim>\<open>assign_to<L&&>{l}\<close> if \<^verbatim>\<open>assign_toable<L&&>\<close>,
  else \<^verbatim>\<open>(L&&)l\<close>.\<close>

datatype ('s, 'v) assign_result =
  Assign_to "('s, 'v) lvalue"
  | Forwarded "('s, 'v) lvalue"

definition assign :: "'e std_env \<Rightarrow> 'e qtype \<Rightarrow> ('s, 'v) lvalue \<Rightarrow> ('s, 'v) assign_result" where
  "assign env L l = (if assign_toable env (rref L) then Assign_to l else Forwarded l)"

text \<open>The statement \<^verbatim>\<open>assign(l) = r\<close>: \<^verbatim>\<open>operator=\<close> of the wrapper when
  \<^verbatim>\<open>assign\<close> returned one, the assignment of the operand type when it returned the
  reference.\<close>

definition assign_stmt ::
  "'e std_env \<Rightarrow> 'v elem_ops \<Rightarrow> 'e qtype \<Rightarrow> 'e qtype \<Rightarrow> ('s, 'v) lvalue \<Rightarrow> ('s, 'v) lvalue
   \<Rightarrow> 's \<Rightarrow> failure + (('s, 'v) lvalue \<times> 's)" where
  "assign_stmt env ops L R l r s =
     (case assign env L l of
        Assign_to w \<Rightarrow>
          if assign_to_array_specialization env (rref L)
          then assign_to_assign env ops (rref L) R w r s
          else Inr (w, lv_put w s (op_user_assign ops (lv_get w s) (lv_get r s)))
      | Forwarded w \<Rightarrow> native_assign env ops (rref L) R w r s)"

text \<open>\<^verbatim>\<open>assign_elements(L&& t, T&&...v)\<close>. \<open>outer_elem t i\<close> is \<^verbatim>\<open>*(p + i)\<close> for
  \<^verbatim>\<open>auto p = t\<close>; \<open>forward_deduce E\<close> is the template argument \<^verbatim>\<open>assign\<close> deduces
  from an expression of type \<open>E\<close>.\<close>

definition outer_elem :: "('s, 'v) lvalue \<Rightarrow> nat \<Rightarrow> ('s, 'v) lvalue" where
  "outer_elem t i =
     \<lparr>lv_get = (\<lambda>s. case lv_get t s of Arr xs \<Rightarrow> xs ! i | Val x \<Rightarrow> Val x),
      lv_put = (\<lambda>s v. case lv_get t s of Arr xs \<Rightarrow> lv_put t s (Arr (xs[i := v])) | Val x \<Rightarrow> s)\<rparr>"

definition forward_deduce :: "'e qtype \<Rightarrow> 'e qtype" where
  "forward_deduce E = (if q_ref E = LRef then E else remove_reference_t E)"

fun assign_elements_loop ::
  "'e std_env \<Rightarrow> 'v elem_ops \<Rightarrow> 'e qtype \<Rightarrow> ('s, 'v) lvalue \<Rightarrow> nat
   \<Rightarrow> ('e qtype \<times> ('s, 'v) lvalue) list \<Rightarrow> 's \<Rightarrow> failure + 's" where
  "assign_elements_loop env ops E t i [] s = Inr s"
| "assign_elements_loop env ops E t i ((T, v) # vs) s =
     (case lv_get t s of
        Arr xs \<Rightarrow>
          if i < length xs
          then (case assign_stmt env ops (forward_deduce E) T (outer_elem t i) v s of
                  Inl e \<Rightarrow> Inl e
                | Inr (_, s') \<Rightarrow> assign_elements_loop env ops E t (i + 1) vs s')
          else Inl Undefined
      | Val _ \<Rightarrow> Inl Undefined)"

definition assign_elements ::
  "'e std_env \<Rightarrow> 'v elem_ops \<Rightarrow> 'e qtype \<Rightarrow> ('s, 'v) lvalue
   \<Rightarrow> ('e qtype \<times> ('s, 'v) lvalue) list \<Rightarrow> 's \<Rightarrow> failure + (('s, 'v) lvalue \<times> 's)" where
  "assign_elements env ops L t vs s =
     (if \<not> c_array L \<or> \<not> list_all (\<lambda>(T, v). assignable_from env (extent_removed_t L) T) vs
      then Inl Ill_formed
      else if length vs \<noteq> std_extent_v (remove_cvref_t L) then Inl Ill_formed
      else case assign_elements_loop env ops (extent_removed_t L) t 0 vs s of
             Inl e \<Rightarrow> Inl e
           | Inr s' \<Rightarrow> Inr (t, s'))"

text \<open>The object an lvalue designates after a call, if the call compiled and ran.\<close>

definition result_object ::
  "('s, 'v) lvalue \<Rightarrow> failure + (('s, 'v) lvalue \<times> 's) \<Rightarrow> 'v cval option" where
  "result_object t res = (case res of Inl e \<Rightarrow> None | Inr (w, s') \<Rightarrow> Some (lv_get t s'))"

text \<open>While element \<open>i\<close> of the array \<open>t\<close> is being assigned, \<open>t\<close> stays an array of
  the same length whose other elements are those of \<open>xs\<close>.\<close>

definition elem_inv :: "('s, 'v) lvalue \<Rightarrow> nat \<Rightarrow> 'v cval list \<Rightarrow> 's \<Rightarrow> bool" where
  "elem_inv t i xs s =
     (\<exists>ys. lv_get t s = Arr ys \<and> length ys = length xs \<and> (\<forall>k. k \<noteq> i \<longrightarrow> ys ! k = xs ! k))"

subsection \<open>A concrete instance\<close>

text \<open>
  The standard library and language facts for \<^verbatim>\<open>int\<close>, \<^verbatim>\<open>int*\<close> and
  \<^verbatim>\<open>double\<close>, references to them and arrays of them, in C++20 with no operator
  overloads and no further \<^verbatim>\<open>assign_to\<close> specialization in scope. Arrays have no
  \<^verbatim>\<open><=>\<close> and no assignment; the standard concepts on two array types are set to
  \<open>False\<close>.
\<close>

datatype prim = T_int | T_int_ptr | T_double

text \<open>Two of these types can be compared with, and assigned from, one another when they
  are the same type or both arithmetic.\<close>

fun compatible :: "prim ctype \<Rightarrow> prim ctype \<Rightarrow> bool" where
  "compatible (Elem a) (Elem b) = (a = b \<or> (a \<noteq> T_int_ptr \<and> b \<noteq> T_int_ptr))"
| "compatible _ _ = False"

definition cxx20 :: "prim std_env" where
  "cxx20 =
     \<lparr>t_int = T_int,
      std_three_way_comparable_with = (\<lambda>A B. \<not> c_array A \<and> \<not> c_array B
           \<and> compatible (q_core A) (q_core B)),
      std_equality_comparable_with = (\<lambda>A B. \<not> c_array A \<and> \<not> c_array B
           \<and> compatible (q_core A) (q_core B)),
      std_totally_ordered_with = (\<lambda>A B. \<not> c_array A \<and> \<not> c_array B
           \<and> compatible (q_core A) (q_core B)),
      std_convertible_to_cv_void_ptr = (\<lambda>A. q_core A = Elem T_int_ptr),
      expr_eq_is_bool = (\<lambda>A B. \<not> c_array A \<and> \<not> c_array B
           \<and> compatible (q_core A) (q_core B)),
      expr_lt_is_bool = (\<lambda>A B. \<not> c_array A \<and> \<not> c_array B
           \<and> compatible (q_core A) (q_core B)),
      free_operator_eq = (\<lambda>A B. False),
      member_operator_eq = (\<lambda>A B. False),
      free_operator_lt = (\<lambda>A B. False),
      member_operator_lt = (\<lambda>A B. False),
      std_copyable = (\<lambda>A. \<not> c_array A \<and> q_ref A = NoRef \<and> \<not> q_const A),
      std_assignable_from =
        (\<lambda>A B. \<not> c_array A \<and> \<not> c_array B \<and> q_ref A = LRef \<and> \<not> q_const A
           \<and> compatible (q_core A) (q_core B)),
      std_is_assignable_v =
        (\<lambda>A B. \<not> c_array A \<and> \<not> c_array B \<and> q_ref A = LRef \<and> \<not> q_const A
           \<and> compatible (q_core A) (q_core B)),
      std_is_copy_assignable_v = (\<lambda>A. \<not> c_array A \<and> \<not> q_const A),
      std_is_move_assignable_v = (\<lambda>A. \<not> c_array A \<and> \<not> q_const A),
      std_is_trivially_copy_assignable_v = (\<lambda>A. \<not> c_array A \<and> \<not> q_const A),
      std_is_trivially_move_assignable_v = (\<lambda>A. \<not> c_array A \<and> \<not> q_const A),
      std_is_nothrow_copy_assignable_v = (\<lambda>A. \<not> c_array A \<and> \<not> q_const A),
      std_is_nothrow_move_assignable_v = (\<lambda>A. \<not> c_array A \<and> \<not> q_const A),
      user_assign_to = (\<lambda>A. False)\<rparr>"

text \<open>The operators of \<^verbatim>\<open>int\<close>, and those of \<^verbatim>\<open>int*\<close> with a pointer held as its
  address.\<close>

definition int_ops :: "int elem_ops" where
  "int_ops =
     \<lparr>op_eq = (\<lambda>a b. a = b),
      op_ne = (\<lambda>a b. a \<noteq> b),
      op_lt = (\<lambda>a b. a < b),
      op_compare_three_way =
        (\<lambda>a b. if a < b then Less else if a = b then Equivalent else Greater),
      op_uintptr = (\<lambda>a. 0),
      op_assign = (\<lambda>a b. b),
      op_user_assign = (\<lambda>a b. b)\<rparr>"

definition ptr_ops :: "nat elem_ops" where
  "ptr_ops =
     \<lparr>op_eq = (\<lambda>p q. p = q),
      op_ne = (\<lambda>p q. p \<noteq> q),
      op_lt = (\<lambda>p q. p < q),
      op_compare_three_way =
        (\<lambda>p q. if p < q then Less else if p = q then Equivalent else Greater),
      op_uintptr = (\<lambda>p. p),
      op_assign = (\<lambda>p q. q),
      op_user_assign = (\<lambda>a b. b)\<rparr>"

text \<open>An element type with values that are unordered, as \<^verbatim>\<open>double\<close> has with NaN:
  \<open>None\<close> compares unordered with every value, itself included, and \<^verbatim>\<open>==\<close> and
  \<^verbatim>\<open><\<close> are false of it.\<close>

definition partial_ops :: "int option elem_ops" where
  "partial_ops =
     \<lparr>op_eq = (\<lambda>a b. case (a, b) of (Some x, Some y) \<Rightarrow> x = y | _ \<Rightarrow> False),
      op_ne = (\<lambda>a b. case (a, b) of (Some x, Some y) \<Rightarrow> x \<noteq> y | _ \<Rightarrow> True),
      op_lt = (\<lambda>a b. case (a, b) of (Some x, Some y) \<Rightarrow> x < y | _ \<Rightarrow> False),
      op_compare_three_way =
        (\<lambda>a b. case (a, b) of
                 (Some x, Some y) \<Rightarrow> if x < y then Less else if x = y then Equivalent else Greater
               | _ \<Rightarrow> Unordered),
      op_uintptr = (\<lambda>a. 0),
      op_assign = (\<lambda>a b. b),
      op_user_assign = (\<lambda>a b. b)\<rparr>"

text \<open>Variables of a program state that maps names to objects.\<close>

definition var :: "string \<Rightarrow> (string \<Rightarrow> 'v cval, 'v) lvalue" where
  "var x = \<lparr>lv_get = (\<lambda>s. s x), lv_put = (\<lambda>s v. s(x := v))\<rparr>"

text \<open>Example operands: lvalues of type \<^verbatim>\<open>int[2][2]\<close>, \<^verbatim>\<open>int[2]\<close>, \<^verbatim>\<open>int[3]\<close>,
  \<^verbatim>\<open>int[2][3]\<close>, \<^verbatim>\<open>int[3][2]\<close>, \<^verbatim>\<open>int\<close>, \<^verbatim>\<open>double[2]\<close>, \<^verbatim>\<open>int*\<close>, \<^verbatim>\<open>int*[2]\<close>,
  \<^verbatim>\<open>int*[3]\<close>, \<^verbatim>\<open>int*[2][3]\<close> and \<^verbatim>\<open>int*[3][2]\<close>, as a forwarding
  reference deduces them; \<open>int_rv\<close> is an rvalue \<^verbatim>\<open>int\<close>. The states hold the
  variables the examples name.\<close>

definition int_lv :: "prim qtype" where
  "int_lv = lref (plain (Elem T_int))"

definition int_2 :: "prim qtype" where
  "int_2 = lref (plain (Array 2 (Elem T_int)))"

definition int_3 :: "prim qtype" where
  "int_3 = lref (plain (Array 3 (Elem T_int)))"

definition int_2x2 :: "prim qtype" where
  "int_2x2 = lref (plain (Array 2 (Array 2 (Elem T_int))))"

definition int_2x3 :: "prim qtype" where
  "int_2x3 = lref (plain (Array 2 (Array 3 (Elem T_int))))"

definition int_3x2 :: "prim qtype" where
  "int_3x2 = lref (plain (Array 3 (Array 2 (Elem T_int))))"

definition double_2 :: "prim qtype" where
  "double_2 = lref (plain (Array 2 (Elem T_double)))"

definition ptr_lv :: "prim qtype" where
  "ptr_lv = lref (plain (Elem T_int_ptr))"

definition ptr_2 :: "prim qtype" where
  "ptr_2 = lref (plain (Array 2 (Elem T_int_ptr)))"

definition ptr_3 :: "prim qtype" where
  "ptr_3 = lref (plain (Array 3 (Elem T_int_ptr)))"

definition ptr_2x3 :: "prim qtype" where
  "ptr_2x3 = lref (plain (Array 2 (Array 3 (Elem T_int_ptr))))"

definition ptr_3x2 :: "prim qtype" where
  "ptr_3x2 = lref (plain (Array 3 (Array 2 (Elem T_int_ptr))))"

definition int_rv :: "prim qtype" where
  "int_rv = plain (Elem T_int)"

definition st0 :: "string \<Rightarrow> int cval" where
  "st0 = (\<lambda>x. Val 0)"

definition st_2x3 :: "string \<Rightarrow> int cval" where
  "st_2x3 = st0(''a'' := Arr [Arr [Val 0, Val 0, Val 0], Arr [Val 0, Val 0, Val 0]],
               ''x'' := Arr [Val 1, Val 2, Val 3],
               ''y'' := Arr [Val 4, Val 5, Val 6],
               ''z'' := Val 7)"

definition st_2 :: "string \<Rightarrow> int cval" where
  "st_2 = st0(''a'' := Arr [Val 0, Val 0], ''x'' := Val 4, ''y'' := Val 2)"

section \<open>Properties\<close>

lemmas type_simps = plain_def lref_def rref_def const_lref_def remove_cvref_t_def
  remove_reference_t_def std_extent_v_def c_array_def all_extents_removed_t_def
  extent_removed_t_def same_extents_def flat_size_def has_type_def

lemmas concept_simps = three_way_comparable_with_def equality_comparable_with_def
  totally_ordered_with_def pointer_equality_comparable_with_def
  pointer_less_than_comparable_with_def compare_three_way_requires_def
  equal_to_requires_def not_equal_to_requires_def less_requires_def
  is_copyable_array_def assignable_from_def assign_to_array_specialization_def
  assign_toable_def

lemmas example_simps = int_lv_def int_2_def int_3_def int_2x2_def int_2x3_def int_3x2_def
  ptr_lv_def ptr_2_def ptr_3_def ptr_2x3_def ptr_3x2_def int_rv_def double_2_def

lemmas witness_simps = type_simps concept_simps example_simps cxx20_def int_ops_def ptr_ops_def
  INT_MAX_def

lemmas assign_simps = assign_elements_def assign_stmt_def assign_def assign_to_assign_def
  native_assign_def assign_loop.simps binds_to_const_lref_def forward_deduce_def
  outer_elem_def result_object_def var_def flat_index_def

text \<open>The loops are unfolded one iteration at a time.\<close>

declare compare_three_way_loop.simps [simp del]
declare equal_to_loop.simps [simp del]
declare less_loop.simps [simp del]
declare assign_loop.simps [simp del]

subsection \<open>Flattening\<close>

lemma flat_index_Some: "i < length (flatten a) \<Longrightarrow> flat_index a i = Some (flatten a ! i)"
  by (simp add: flat_index_def)

lemma has_shape_length_flatten: "has_shape ns v \<Longrightarrow> length (flatten v) = prod_list ns"
proof (induction ns v rule: has_shape.induct)
  case (2 n ns xs)
  then have "map (\<lambda>x. length (flatten x)) xs = replicate (length xs) (prod_list ns)"
    by (auto simp: map_replicate_const cong: map_cong)
  with 2 show ?case
    by (simp add: length_concat comp_def sum_list_replicate)
qed simp_all

lemma has_type_length_flatten: "has_type T v \<Longrightarrow> length (flatten v) = flat_size T"
  by (simp add: has_type_def flat_size_def has_shape_length_flatten)

lemma equal_to_loop_all:
  assumes "n \<le> length (flatten l)" "n \<le> length (flatten r)" "n \<le> INT_MAX"
    and "\<forall>j. i \<le> j \<and> j < n \<longrightarrow> \<not> op_ne ops (flatten l ! j) (flatten r ! j)"
    and "i \<le> n"
  shows "equal_to_loop ops n l r i = Inr True"
  using assms
proof (induction "n - i" arbitrary: i)
  case 0
  then show ?case by (subst equal_to_loop.simps) simp
next
  case (Suc d)
  then have "i < n" by simp
  with Suc.prems have a: "flat_index l i = Some (flatten l ! i)" "flat_index r i = Some (flatten r ! i)"
    "i < INT_MAX" "\<not> op_ne ops (flatten l ! i) (flatten r ! i)"
    by (simp_all add: flat_index_def)
  have "equal_to_loop ops n l r (i + 1) = Inr True"
    using Suc by (intro Suc.hyps(1)) auto
  with a \<open>i < n\<close> show ?case
    by (subst equal_to_loop.simps) simp
qed

lemma equal_to_loop_mismatch:
  assumes "k < n" "k < length (flatten l)" "k < length (flatten r)" "k \<le> INT_MAX"
    and "\<forall>j. i \<le> j \<and> j < k \<longrightarrow> \<not> op_ne ops (flatten l ! j) (flatten r ! j)"
    and "op_ne ops (flatten l ! k) (flatten r ! k)"
    and "i \<le> k"
  shows "equal_to_loop ops n l r i = Inr False"
  using assms
proof (induction "k - i" arbitrary: i)
  case 0
  then have "i = k" by simp
  with 0 show ?case
    by (subst equal_to_loop.simps) (simp add: flat_index_def)
next
  case (Suc d)
  then have "i < k" by simp
  with Suc.prems have a: "flat_index l i = Some (flatten l ! i)" "flat_index r i = Some (flatten r ! i)"
    "i < INT_MAX" "\<not> op_ne ops (flatten l ! i) (flatten r ! i)" "i \<noteq> n"
    by (simp_all add: flat_index_def)
  have "equal_to_loop ops n l r (i + 1) = Inr False"
    using Suc by (intro Suc.hyps(1)) auto
  with a show ?case
    by (subst equal_to_loop.simps) simp
qed


lemma less_loop_all:
  assumes "n \<le> length (flatten l)" "n \<le> length (flatten r)" "n \<le> INT_MAX"
    and "\<forall>j. i \<le> j \<and> j < n \<longrightarrow> \<not> op_ne ops (flatten l ! j) (flatten r ! j)"
    and "i \<le> n"
  shows "less_loop ops n l r i = Inr False"
  using assms
proof (induction "n - i" arbitrary: i)
  case 0
  then show ?case by (subst less_loop.simps) simp
next
  case (Suc d)
  then have "i < n" by simp
  with Suc.prems have a: "flat_index l i = Some (flatten l ! i)" "flat_index r i = Some (flatten r ! i)"
    "i < INT_MAX" "\<not> op_ne ops (flatten l ! i) (flatten r ! i)"
    by (simp_all add: flat_index_def)
  have "less_loop ops n l r (i + 1) = Inr False"
    using Suc by (intro Suc.hyps(1)) auto
  with a \<open>i < n\<close> show ?case
    by (subst less_loop.simps) simp
qed

lemma less_loop_mismatch:
  assumes "k < n" "k < length (flatten l)" "k < length (flatten r)" "k \<le> INT_MAX"
    and "\<forall>j. i \<le> j \<and> j < k \<longrightarrow> \<not> op_ne ops (flatten l ! j) (flatten r ! j)"
    and "op_ne ops (flatten l ! k) (flatten r ! k)"
    and "i \<le> k"
  shows "less_loop ops n l r i = Inr (op_lt ops (flatten l ! k) (flatten r ! k))"
  using assms
proof (induction "k - i" arbitrary: i)
  case 0
  then have "i = k" by simp
  with 0 show ?case
    by (subst less_loop.simps) (simp add: flat_index_def)
next
  case (Suc d)
  then have "i < k" by simp
  with Suc.prems have a: "flat_index l i = Some (flatten l ! i)" "flat_index r i = Some (flatten r ! i)"
    "i < INT_MAX" "\<not> op_ne ops (flatten l ! i) (flatten r ! i)" "i \<noteq> n"
    by (simp_all add: flat_index_def)
  have "less_loop ops n l r (i + 1) = Inr (op_lt ops (flatten l ! k) (flatten r ! k))"
    using Suc by (intro Suc.hyps(1)) auto
  with a show ?case
    by (subst less_loop.simps) simp
qed

lemma compare_three_way_loop_all:
  assumes "n \<le> length (flatten l)" "n \<le> length (flatten r)" "n \<le> INT_MAX"
    and "\<forall>j. i \<le> j \<and> j < n \<longrightarrow> op_compare_three_way ops (flatten l ! j) (flatten r ! j) = Equivalent"
    and "i \<le> n"
  shows "compare_three_way_loop ops n l r i = Inr Equivalent"
  using assms
proof (induction "n - i" arbitrary: i)
  case 0
  then show ?case by (subst compare_three_way_loop.simps) simp
next
  case (Suc d)
  then have "i < n" by simp
  with Suc.prems have a: "flat_index l i = Some (flatten l ! i)" "flat_index r i = Some (flatten r ! i)"
    "i < INT_MAX" "op_compare_three_way ops (flatten l ! i) (flatten r ! i) = Equivalent"
    by (simp_all add: flat_index_def)
  have "compare_three_way_loop ops n l r (i + 1) = Inr Equivalent"
    using Suc by (intro Suc.hyps(1)) auto
  with a \<open>i < n\<close> show ?case
    by (subst compare_three_way_loop.simps) simp
qed

lemma compare_three_way_loop_mismatch:
  assumes "k < n" "k < length (flatten l)" "k < length (flatten r)" "k \<le> INT_MAX"
    and "\<forall>j. i \<le> j \<and> j < k \<longrightarrow> op_compare_three_way ops (flatten l ! j) (flatten r ! j) = Equivalent"
    and "op_compare_three_way ops (flatten l ! k) (flatten r ! k) \<noteq> Equivalent"
    and "i \<le> k"
  shows "compare_three_way_loop ops n l r i = Inr (op_compare_three_way ops (flatten l ! k) (flatten r ! k))"
  using assms
proof (induction "k - i" arbitrary: i)
  case 0
  then have "i = k" by simp
  with 0 show ?case
    by (subst compare_three_way_loop.simps) (simp add: flat_index_def)
next
  case (Suc d)
  then have "i < k" by simp
  with Suc.prems have a: "flat_index l i = Some (flatten l ! i)" "flat_index r i = Some (flatten r ! i)"
    "i < INT_MAX" "op_compare_three_way ops (flatten l ! i) (flatten r ! i) = Equivalent" "i \<noteq> n"
    by (simp_all add: flat_index_def)
  have "compare_three_way_loop ops n l r (i + 1) = Inr (op_compare_three_way ops (flatten l ! k) (flatten r ! k))"
    using Suc by (intro Suc.hyps(1)) auto
  with a show ?case
    by (subst compare_three_way_loop.simps) simp
qed

lemma first_position:
  fixes P :: "nat \<Rightarrow> bool"
  assumes "\<exists>j<n. P j"
  shows "\<exists>k<n. P k \<and> (\<forall>j<k. \<not> P j)"
proof -
  from assms obtain j where j: "j < n" "P j" by blast
  define k where "k = (LEAST m. P m)"
  have "P k" unfolding k_def using j(2) by (rule LeastI)
  moreover have "k \<le> j" unfolding k_def using j(2) by (rule Least_le)
  moreover have "\<forall>m<k. \<not> P m" unfolding k_def using not_less_Least by blast
  ultimately show ?thesis using j(1) by (intro exI[of _ k]) auto
qed


lemma same_extents_flat_size: "same_extents L R \<Longrightarrow> flat_size R = flat_size L"
  by (simp add: same_extents_def flat_size_def)

lemma c_array_not_pointer_less: "c_array L \<Longrightarrow> \<not> pointer_less_than_comparable_with env L R"
  by (simp add: pointer_less_than_comparable_with_def)

lemma all_extents_removed_t_non_array: "\<not> c_array T \<Longrightarrow> all_extents_removed_t T = T"
  by (cases "q_core T") (simp_all add: c_array_def all_extents_removed_t_def)

lemma same_extents_remove_cvref:
  "same_extents (remove_cvref_t L) (remove_cvref_t R) = same_extents L R"
  by (simp add: same_extents_def remove_cvref_t_def plain_def)

lemma shape_mismatch_rejected:
  assumes "\<not> same_extents L R"
  shows "\<not> compare_three_way_requires env L R"
    and "\<not> equality_comparable_with env L R"
    and "\<not> totally_ordered_with env L R"
    and "c_array L \<Longrightarrow> \<not> is_copyable_array env \<Longrightarrow> \<not> assignable_from env L R"
  using assms
  by (simp_all add: compare_three_way_requires_def three_way_comparable_with_def
      equality_comparable_with_def totally_ordered_with_def assignable_from_def
      same_extents_remove_cvref)

subsection \<open>Comparison of arrays\<close>

text \<open>
  In the theorems below the operands are well-typed objects of the operand types
  (\<open>has_type\<close>), the types have the same shape, and the total extent is within the range
  of the loop counter (\<open>flat_size L \<le> INT_MAX\<close>). \<open>flatten l ! i\<close> is the element at flat
  index \<open>i\<close>, which \<open>flat_index l i\<close> yields for \<open>i < flat_size L\<close>
  (\<open>flat_index_Some\<close>, \<open>has_type_length_flatten\<close>).
\<close>

text \<open>
  C1. For arrays of identical shape whose element type is equality-comparable (its
  \<^verbatim>\<open>!=\<close> is the negation of its \<^verbatim>\<open>==\<close>), \<open>equal_to\<close> returns true exactly when the
  elements at every flat index are equal. It stops at the first mismatch: with the first
  mismatch at \<open>k\<close>, any two objects that agree with the operands up to flat index \<open>k\<close>
  give false, whatever follows.
\<close>

theorem equal_to_all_positions_equal:
  assumes req: "equal_to_requires env L R"
    and arr: "c_array L"
    and shape: "same_extents L R"
    and tl: "has_type L l" and tr: "has_type R r"
    and size: "flat_size L \<le> INT_MAX"
    and ne: "\<forall>a b. op_ne ops a b = (\<not> op_eq ops a b)"
  shows "equal_to env ops L R l r
           = Inr (\<forall>i<flat_size L. op_eq ops (flatten l ! i) (flatten r ! i))
       \<and> (\<forall>k<flat_size L.
             (\<forall>i<k. op_eq ops (flatten l ! i) (flatten r ! i))
             \<and> \<not> op_eq ops (flatten l ! k) (flatten r ! k)
             \<longrightarrow> (\<forall>l' r'. take (Suc k) (flatten l') = take (Suc k) (flatten l)
                        \<and> take (Suc k) (flatten r') = take (Suc k) (flatten r)
                        \<longrightarrow> equal_to env ops L R l' r' = Inr False))"
proof -
  let ?n = "flat_size L"
  have ll: "length (flatten l) = ?n" and lr: "length (flatten r) = ?n"
    using tl tr shape by (simp_all add: has_type_length_flatten same_extents_flat_size)
  have unfold: "equal_to env ops L R x y = equal_to_loop ops ?n x y 0" for x y
    using req arr by (simp add: equal_to_def)
  have main: "equal_to_loop ops ?n l r 0
                = Inr (\<forall>i<?n. op_eq ops (flatten l ! i) (flatten r ! i))"
  proof (cases "\<exists>j<?n. op_ne ops (flatten l ! j) (flatten r ! j)")
    case True
    then obtain k where k: "k < ?n" "op_ne ops (flatten l ! k) (flatten r ! k)"
      "\<forall>j<k. \<not> op_ne ops (flatten l ! j) (flatten r ! j)"
      using first_position [of ?n "\<lambda>j. op_ne ops (flatten l ! j) (flatten r ! j)"] by blast
    then have "equal_to_loop ops ?n l r 0 = Inr False"
      using ll lr size by (intro equal_to_loop_mismatch [where k = k]) auto
    moreover have "\<not> (\<forall>i<?n. op_eq ops (flatten l ! i) (flatten r ! i))"
      using k(1,2) ne by auto
    ultimately show ?thesis by simp
  next
    case False
    then have "equal_to_loop ops ?n l r 0 = Inr True"
      using ll lr size by (intro equal_to_loop_all) auto
    moreover have "\<forall>i<?n. op_eq ops (flatten l ! i) (flatten r ! i)"
      using False ne by auto
    ultimately show ?thesis by simp
  qed
  have short: "equal_to_loop ops ?n l' r' 0 = Inr False"
    if k: "k < ?n" "\<forall>i<k. op_eq ops (flatten l ! i) (flatten r ! i)"
      "\<not> op_eq ops (flatten l ! k) (flatten r ! k)"
      and same: "take (Suc k) (flatten l') = take (Suc k) (flatten l)"
      "take (Suc k) (flatten r') = take (Suc k) (flatten r)"
    for k l' r'
  proof -
    have len: "k < length (flatten l')" "k < length (flatten r')"
      using same k(1) ll lr
      by (metis length_take min_less_iff_conj not_less_eq not_less_iff_gr_or_eq lessI)+
    have nth: "flatten l' ! j = flatten l ! j" "flatten r' ! j = flatten r ! j" if "j \<le> k" for j
      using same that by (metis le_imp_less_Suc nth_take)+
    show ?thesis
      using k len nth size ne
      by (intro equal_to_loop_mismatch [where k = k]) auto
  qed
  show ?thesis
    using main short by (simp add: unfold)
qed

theorem equal_to_all_positions_equal_witness:
  "equal_to cxx20 int_ops int_2x2 int_2x2
     (Arr [Arr [Val 0, Val 1], Arr [Val 2, Val 3]]) (Arr [Arr [Val 0, Val 1], Arr [Val 2, Val 3]])
     = Inr True
   \<and> equal_to cxx20 int_ops int_2x2 int_2x2
     (Arr [Arr [Val 0, Val 1], Arr [Val 2, Val 3]]) (Arr [Arr [Val 0, Val 1], Arr [Val 2, Val 2]])
     = Inr False"
proof -
  let ?a = "Arr [Arr [Val 0, Val 1], Arr [Val 2, Val (3::int)]]"
  have "equal_to cxx20 int_ops int_2x2 int_2x2 ?a r
          = Inr (\<forall>i<flat_size int_2x2. op_eq int_ops (flatten ?a ! i) (flatten r ! i))"
    if "has_type int_2x2 r" for r
    using that
    by (intro conjunct1 [OF equal_to_all_positions_equal]) (simp_all add: witness_simps)
  moreover have "flat_size int_2x2 = 4"
    by (simp add: witness_simps)
  moreover have "has_type int_2x2 (Arr [Arr [Val 0, Val 1], Arr [Val 2, Val (3::int)]])"
    "has_type int_2x2 (Arr [Arr [Val 0, Val 1], Arr [Val 2, Val (2::int)]])"
    by (simp_all add: witness_simps)
  ultimately show ?thesis
    by (simp add: int_ops_def numeral_eq_Suc All_less_Suc)
qed

text \<open>
  C2. For arrays of identical shape that the language cannot compare with \<^verbatim>\<open><=>\<close>
  itself, \<open>compare_three_way\<close> returns the element comparison at the first flat index
  where it is not equivalent, and equivalent when it is equivalent at every flat index.
  With an element type whose \<^verbatim>\<open>!=\<close> agrees with its three-way comparison, the result
  is equivalent exactly when \<open>equal_to\<close> is true.
\<close>

theorem compare_three_way_first_nonequivalent:
  assumes req: "compare_three_way_requires env L R"
    and nonnative: "\<not> std_three_way_comparable_with env L R"
    and shape: "same_extents L R"
    and tl: "has_type L l" and tr: "has_type R r"
    and size: "flat_size L \<le> INT_MAX"
    and eq_req: "equal_to_requires env L R" and arr: "c_array L"
    and ne: "\<forall>a b. op_ne ops a b = (op_compare_three_way ops a b \<noteq> Equivalent)"
  shows "(\<forall>k<flat_size L.
            (\<forall>i<k. op_compare_three_way ops (flatten l ! i) (flatten r ! i) = Equivalent)
            \<and> op_compare_three_way ops (flatten l ! k) (flatten r ! k) \<noteq> Equivalent
            \<longrightarrow> compare_three_way env ops L R l r
                  = Inr (op_compare_three_way ops (flatten l ! k) (flatten r ! k)))
       \<and> ((\<forall>i<flat_size L. op_compare_three_way ops (flatten l ! i) (flatten r ! i) = Equivalent)
            \<longrightarrow> compare_three_way env ops L R l r = Inr Equivalent)
       \<and> (compare_three_way env ops L R l r = Inr Equivalent
            \<longleftrightarrow> equal_to env ops L R l r = Inr True)"
proof -
  let ?n = "flat_size L"
  let ?c = "\<lambda>i. op_compare_three_way ops (flatten l ! i) (flatten r ! i)"
  have ll: "length (flatten l) = ?n" and lr: "length (flatten r) = ?n"
    using tl tr shape by (simp_all add: has_type_length_flatten same_extents_flat_size)
  have unfold: "compare_three_way env ops L R l r = compare_three_way_loop ops ?n l r 0"
    using req nonnative by (simp add: compare_three_way_def)
  have unfold_eq: "equal_to env ops L R l r = equal_to_loop ops ?n l r 0"
    using eq_req arr by (simp add: equal_to_def)
  have first: "compare_three_way_loop ops ?n l r 0 = Inr (?c k)"
    if "k < ?n" "\<forall>i<k. ?c i = Equivalent" "?c k \<noteq> Equivalent" for k
    using that ll lr size by (intro compare_three_way_loop_mismatch) auto
  have all: "compare_three_way_loop ops ?n l r 0 = Inr Equivalent"
    if "\<forall>i<?n. ?c i = Equivalent"
    using that ll lr size by (intro compare_three_way_loop_all) auto
  have iff: "compare_three_way_loop ops ?n l r 0 = Inr Equivalent
               \<longleftrightarrow> equal_to_loop ops ?n l r 0 = Inr True"
  proof (cases "\<exists>j<?n. ?c j \<noteq> Equivalent")
    case True
    then obtain k where k: "k < ?n" "?c k \<noteq> Equivalent" "\<forall>j<k. \<not> ?c j \<noteq> Equivalent"
      using first_position [of ?n "\<lambda>j. ?c j \<noteq> Equivalent"] by blast
    then have "compare_three_way_loop ops ?n l r 0 = Inr (?c k)"
      using first by simp
    moreover have "equal_to_loop ops ?n l r 0 = Inr False"
      using k ll lr size ne by (intro equal_to_loop_mismatch [where k = k]) auto
    ultimately show ?thesis using k(2) by simp
  next
    case False
    then have "compare_three_way_loop ops ?n l r 0 = Inr Equivalent"
      using all by simp
    moreover have "equal_to_loop ops ?n l r 0 = Inr True"
      using False ll lr size ne by (intro equal_to_loop_all) auto
    ultimately show ?thesis by simp
  qed
  show ?thesis
    unfolding unfold unfold_eq using first all iff by blast
qed

theorem compare_three_way_first_nonequivalent_witness:
  "compare_three_way cxx20 int_ops int_2x2 int_2x2
     (Arr [Arr [Val 0, Val 1], Arr [Val 2, Val 3]]) (Arr [Arr [Val 0, Val 1], Arr [Val 2, Val 2]])
     = Inr Greater
   \<and> compare_three_way cxx20 int_ops int_2x2 int_2x2
     (Arr [Arr [Val 0, Val 1], Arr [Val 2, Val 3]]) (Arr [Arr [Val 0, Val 1], Arr [Val 2, Val 3]])
     = Inr Equivalent
   \<and> equal_to cxx20 int_ops int_2x2 int_2x2
     (Arr [Arr [Val 0, Val 1], Arr [Val 2, Val 3]]) (Arr [Arr [Val 0, Val 1], Arr [Val 2, Val 3]])
     = Inr True"
proof -
  let ?a = "Arr [Arr [Val 0, Val 1], Arr [Val 2, Val (3::int)]]"
  let ?b = "Arr [Arr [Val 0, Val 1], Arr [Val 2, Val (2::int)]]"
  have th: "(\<forall>k<flat_size int_2x2.
            (\<forall>i<k. op_compare_three_way int_ops (flatten ?a ! i) (flatten r ! i) = Equivalent)
            \<and> op_compare_three_way int_ops (flatten ?a ! k) (flatten r ! k) \<noteq> Equivalent
            \<longrightarrow> compare_three_way cxx20 int_ops int_2x2 int_2x2 ?a r
                  = Inr (op_compare_three_way int_ops (flatten ?a ! k) (flatten r ! k)))
       \<and> ((\<forall>i<flat_size int_2x2. op_compare_three_way int_ops (flatten ?a ! i) (flatten r ! i) = Equivalent)
            \<longrightarrow> compare_three_way cxx20 int_ops int_2x2 int_2x2 ?a r = Inr Equivalent)
       \<and> (compare_three_way cxx20 int_ops int_2x2 int_2x2 ?a r = Inr Equivalent
            \<longleftrightarrow> equal_to cxx20 int_ops int_2x2 int_2x2 ?a r = Inr True)"
    if "has_type int_2x2 r" for r
    using that
    by (intro compare_three_way_first_nonequivalent) (simp_all add: witness_simps)
  have fs: "flat_size int_2x2 = 4"
    by (simp add: witness_simps)
  have tb: "has_type int_2x2 ?b" and ta: "has_type int_2x2 ?a"
    by (simp_all add: witness_simps)
  have "compare_three_way cxx20 int_ops int_2x2 int_2x2 ?a ?b
             = Inr (op_compare_three_way int_ops (flatten ?a ! 3) (flatten ?b ! 3))"
    by (rule conjunct1 [OF th [OF tb], rule_format, of 3])
       (simp_all add: fs int_ops_def numeral_eq_Suc All_less_Suc)
  then have b: "compare_three_way cxx20 int_ops int_2x2 int_2x2 ?a ?b = Inr Greater"
    by (simp add: int_ops_def numeral_eq_Suc)
  have a: "compare_three_way cxx20 int_ops int_2x2 int_2x2 ?a ?a = Inr Equivalent"
    by (rule conjunct1 [OF conjunct2 [OF th [OF ta]], rule_format])
       (simp_all add: fs int_ops_def)
  have c: "equal_to cxx20 int_ops int_2x2 int_2x2 ?a ?a = Inr True"
    using a conjunct2 [OF conjunct2 [OF th [OF ta]]] by simp
  from a b c show ?thesis
    by simp
qed

text \<open>
  C3. For arrays of identical shape, \<open>less_fn\<close> (the functor \<^verbatim>\<open>less\<close>) returns true
  exactly when there is a first flat index at which the elements compare unequal with
  \<^verbatim>\<open>!=\<close> and the left element is \<^verbatim>\<open><\<close> the right one there; it is false when no
  position differs.
\<close>

theorem less_first_differing_position:
  assumes req: "less_requires env L R"
    and arr: "c_array L"
    and shape: "same_extents L R"
    and tl: "has_type L l" and tr: "has_type R r"
    and size: "flat_size L \<le> INT_MAX"
  shows "less_fn env ops ce L R l r
           = Inr (\<exists>k<flat_size L.
                    (\<forall>i<k. \<not> op_ne ops (flatten l ! i) (flatten r ! i))
                    \<and> op_ne ops (flatten l ! k) (flatten r ! k)
                    \<and> op_lt ops (flatten l ! k) (flatten r ! k))"
proof -
  let ?n = "flat_size L"
  let ?ne = "\<lambda>i. op_ne ops (flatten l ! i) (flatten r ! i)"
  let ?lt = "\<lambda>i. op_lt ops (flatten l ! i) (flatten r ! i)"
  have ll: "length (flatten l) = ?n" and lr: "length (flatten r) = ?n"
    using tl tr shape by (simp_all add: has_type_length_flatten same_extents_flat_size)
  have unfold: "less_fn env ops ce L R l r = less_loop ops ?n l r 0"
    using req arr by (simp add: less_fn_def c_array_not_pointer_less)
  show ?thesis
  proof (cases "\<exists>j<?n. ?ne j")
    case True
    then obtain k where k: "k < ?n" "?ne k" "\<forall>j<k. \<not> ?ne j"
      using first_position [of ?n ?ne] by blast
    then have "less_loop ops ?n l r 0 = Inr (?lt k)"
      using ll lr size by (intro less_loop_mismatch) auto
    moreover have "(\<exists>k'<?n. (\<forall>i<k'. \<not> ?ne i) \<and> ?ne k' \<and> ?lt k') = ?lt k"
    proof
      assume "\<exists>k'<?n. (\<forall>i<k'. \<not> ?ne i) \<and> ?ne k' \<and> ?lt k'"
      then obtain k' where k': "\<forall>i<k'. \<not> ?ne i" "?ne k'" "?lt k'" by blast
      have "k' = k"
        using k(2,3) k'(1,2) by (meson linorder_neqE_nat)
      with k' show "?lt k" by simp
    next
      assume "?lt k"
      with k show "\<exists>k'<?n. (\<forall>i<k'. \<not> ?ne i) \<and> ?ne k' \<and> ?lt k'" by blast
    qed
    ultimately show ?thesis by (simp add: unfold)
  next
    case False
    then have "less_loop ops ?n l r 0 = Inr False"
      using ll lr size by (intro less_loop_all) auto
    moreover have "\<not> (\<exists>k'<?n. (\<forall>i<k'. \<not> ?ne i) \<and> ?ne k' \<and> ?lt k')"
      using False by blast
    ultimately show ?thesis by (simp add: unfold)
  qed
qed

theorem less_first_differing_position_witness:
  "less_fn cxx20 int_ops False int_2x2 int_2x2
     (Arr [Arr [Val 0, Val 1], Arr [Val 2, Val 2]]) (Arr [Arr [Val 0, Val 1], Arr [Val 2, Val 3]])
     = Inr True
   \<and> less_fn cxx20 int_ops False int_2x2 int_2x2
     (Arr [Arr [Val 0, Val 1], Arr [Val 2, Val 3]]) (Arr [Arr [Val 0, Val 1], Arr [Val 2, Val 3]])
     = Inr False"
proof -
  let ?a = "Arr [Arr [Val 0, Val 1], Arr [Val 2, Val (3::int)]]"
  have "less_fn cxx20 int_ops False int_2x2 int_2x2 l ?a
          = Inr (\<exists>k<flat_size int_2x2.
                    (\<forall>i<k. \<not> op_ne int_ops (flatten l ! i) (flatten ?a ! i))
                    \<and> op_ne int_ops (flatten l ! k) (flatten ?a ! k)
                    \<and> op_lt int_ops (flatten l ! k) (flatten ?a ! k))"
    if "has_type int_2x2 l" for l
    using that
    by (intro less_first_differing_position) (simp_all add: witness_simps)
  moreover have "flat_size int_2x2 = 4"
    by (simp add: witness_simps)
  moreover have "has_type int_2x2 (Arr [Arr [Val 0, Val 1], Arr [Val 2, Val (3::int)]])"
    "has_type int_2x2 (Arr [Arr [Val 0, Val 1], Arr [Val 2, Val (2::int)]])"
    by (simp_all add: witness_simps)
  ultimately show ?thesis
    by (simp add: int_ops_def numeral_eq_Suc All_less_Suc Ex_less_Suc)
qed

text \<open>
  C5. For arrays of identical shape and an element type whose \<^verbatim>\<open><\<close> and \<^verbatim>\<open>!=\<close>
  agree with its three-way comparison (which may also answer unordered), \<open>less_fn\<close> is
  true exactly when \<open>compare_three_way\<close> is less.
\<close>

theorem less_agrees_with_compare_three_way:
  assumes req: "less_requires env L R"
    and req3: "compare_three_way_requires env L R"
    and nonnative: "\<not> std_three_way_comparable_with env L R"
    and arr: "c_array L"
    and shape: "same_extents L R"
    and tl: "has_type L l" and tr: "has_type R r"
    and size: "flat_size L \<le> INT_MAX"
    and lt: "\<forall>a b. op_lt ops a b = (op_compare_three_way ops a b = Less)"
    and ne: "\<forall>a b. op_ne ops a b = (op_compare_three_way ops a b \<noteq> Equivalent)"
  shows "\<exists>c. compare_three_way env ops L R l r = Inr c
             \<and> less_fn env ops ce L R l r = Inr (c = Less)"
proof -
  let ?n = "flat_size L"
  let ?c = "\<lambda>i. op_compare_three_way ops (flatten l ! i) (flatten r ! i)"
  have ll: "length (flatten l) = ?n" and lr: "length (flatten r) = ?n"
    using tl tr shape by (simp_all add: has_type_length_flatten same_extents_flat_size)
  have unfold: "less_fn env ops ce L R l r = less_loop ops ?n l r 0"
    using req arr by (simp add: less_fn_def c_array_not_pointer_less)
  have unfold3: "compare_three_way env ops L R l r = compare_three_way_loop ops ?n l r 0"
    using req3 nonnative by (simp add: compare_three_way_def)
  show ?thesis
  proof (cases "\<exists>j<?n. ?c j \<noteq> Equivalent")
    case True
    then obtain k where k: "k < ?n" "?c k \<noteq> Equivalent" "\<forall>j<k. \<not> ?c j \<noteq> Equivalent"
      using first_position [of ?n "\<lambda>j. ?c j \<noteq> Equivalent"] by blast
    then have "compare_three_way_loop ops ?n l r 0 = Inr (?c k)"
      using ll lr size by (intro compare_three_way_loop_mismatch) auto
    moreover have "less_loop ops ?n l r 0 = Inr (op_lt ops (flatten l ! k) (flatten r ! k))"
      using k ll lr size ne by (intro less_loop_mismatch) auto
    ultimately show ?thesis using lt by (simp add: unfold unfold3)
  next
    case False
    then have "compare_three_way_loop ops ?n l r 0 = Inr Equivalent"
      using ll lr size by (intro compare_three_way_loop_all) auto
    moreover have "less_loop ops ?n l r 0 = Inr False"
      using False ll lr size ne by (intro less_loop_all) auto
    ultimately show ?thesis by (simp add: unfold unfold3)
  qed
qed

theorem less_agrees_with_compare_three_way_witness:
  "compare_three_way cxx20 int_ops int_2x2 int_2x2
     (Arr [Arr [Val 0, Val 1], Arr [Val 2, Val 2]]) (Arr [Arr [Val 0, Val 1], Arr [Val 2, Val 3]])
     = Inr Less
   \<and> less_fn cxx20 int_ops False int_2x2 int_2x2
     (Arr [Arr [Val 0, Val 1], Arr [Val 2, Val 2]]) (Arr [Arr [Val 0, Val 1], Arr [Val 2, Val 3]])
     = Inr True
   \<and> compare_three_way cxx20 partial_ops double_2 double_2
     (Arr [Val (Some 1), Val None]) (Arr [Val (Some 1), Val (Some 2)])
     = Inr Unordered
   \<and> less_fn cxx20 partial_ops False double_2 double_2
     (Arr [Val (Some 1), Val None]) (Arr [Val (Some 1), Val (Some 2)])
     = Inr False"
proof -
  let ?a = "Arr [Arr [Val 0, Val 1], Arr [Val 2, Val (2::int)]]"
  let ?b = "Arr [Arr [Val 0, Val 1], Arr [Val 2, Val (3::int)]]"
  let ?c = "Arr [Val (Some (1::int)), Val None]"
  let ?d = "Arr [Val (Some (1::int)), Val (Some 2)]"
  have "\<exists>c. compare_three_way cxx20 int_ops int_2x2 int_2x2 ?a ?b = Inr c
           \<and> less_fn cxx20 int_ops False int_2x2 int_2x2 ?a ?b = Inr (c = Less)"
    by (rule less_agrees_with_compare_three_way) (simp_all add: witness_simps)
  moreover have "compare_three_way cxx20 int_ops int_2x2 int_2x2 ?a ?b = Inr Less"
    by (simp add: compare_three_way_def flat_index_def witness_simps
      compare_three_way_loop.simps)
  moreover have "\<exists>c. compare_three_way cxx20 partial_ops double_2 double_2 ?c ?d = Inr c
           \<and> less_fn cxx20 partial_ops False double_2 double_2 ?c ?d = Inr (c = Less)"
    by (rule less_agrees_with_compare_three_way)
       (auto simp: witness_simps partial_ops_def split: option.splits)
  moreover have "compare_three_way cxx20 partial_ops double_2 double_2 ?c ?d = Inr Unordered"
    by (simp add: compare_three_way_def flat_index_def witness_simps partial_ops_def
      compare_three_way_loop.simps)
  ultimately show ?thesis by auto
qed

subsection \<open>Shape mismatch\<close>

text \<open>The scenario with \<^verbatim>\<open>int\<close> elements: \<^verbatim>\<open>int[2][3]\<close> against
  \<^verbatim>\<open>int[3][2]\<close> satisfies none of the constraints.\<close>

lemma int_arrays_of_different_shape_rejected:
  "\<not> same_extents int_2x3 int_3x2
   \<and> \<not> compare_three_way_requires cxx20 int_2x3 int_3x2
   \<and> \<not> equal_to_requires cxx20 int_2x3 int_3x2
   \<and> \<not> not_equal_to_requires cxx20 int_2x3 int_3x2
   \<and> \<not> less_requires cxx20 int_2x3 int_3x2
   \<and> \<not> assignable_from cxx20 int_2x3 int_3x2"
  by (simp add: witness_simps)

text \<open>
  C4. Operands of different shape should be rejected by every comparison. The
  \<^verbatim>\<open>requires\<close>-clauses of \<open>equal_to\<close>, \<open>not_equal_to\<close> and \<open>less_fn\<close> have a second
  disjunct for pointers that does not ask for \<open>same_extents\<close>: arrays of \<^verbatim>\<open>int*\<close> of
  shapes 2 and 3, or 2\<times>3 and 3\<times>2, are accepted, and the call compares the first
  \<open>flat_size L\<close> elements at run time.
\<close>

theorem pointer_arrays_of_different_shape_accepted:
  "\<not> same_extents ptr_2 ptr_3
   \<and> equal_to_requires cxx20 ptr_2 ptr_3
   \<and> not_equal_to_requires cxx20 ptr_2 ptr_3
   \<and> less_requires cxx20 ptr_2 ptr_3
   \<and> equal_to cxx20 ptr_ops ptr_2 ptr_3 (Arr [Val 16, Val 32]) (Arr [Val 16, Val 32, Val 48])
       = Inr True
   \<and> less_fn cxx20 ptr_ops False ptr_2 ptr_3 (Arr [Val 16, Val 32]) (Arr [Val 16, Val 32, Val 48])
       = Inr False
   \<and> \<not> same_extents ptr_2x3 ptr_3x2
   \<and> equal_to_requires cxx20 ptr_2x3 ptr_3x2
   \<and> less_requires cxx20 ptr_2x3 ptr_3x2
   \<and> equal_to cxx20 ptr_ops ptr_2x3 ptr_3x2
        (Arr [Arr [Val 16, Val 32, Val 48], Arr [Val 64, Val 80, Val 96]])
        (Arr [Arr [Val 16, Val 32], Arr [Val 48, Val 64], Arr [Val 80, Val 96]])
       = Inr True"
  by (simp add: equal_to_def less_fn_def flat_index_def witness_simps
      equal_to_loop.simps less_loop.simps)

subsection \<open>Traits\<close>

text \<open>
  C8. Where the language has no array copy (\<open>is_copyable_array\<close> is false), each unary
  assignability trait of a type is the standard trait of its innermost element type,
  and for a type that is not an array it is the standard trait of the type itself.
\<close>

theorem unary_assignability_traits_redirect:
  "(\<not> is_copyable_array env \<longrightarrow>
      is_copy_assignable_v env T = std_is_copy_assignable_v env (all_extents_removed_t T)
      \<and> is_move_assignable_v env T = std_is_move_assignable_v env (all_extents_removed_t T)
      \<and> is_trivially_copy_assignable_v env T
          = std_is_trivially_copy_assignable_v env (all_extents_removed_t T)
      \<and> is_trivially_move_assignable_v env T
          = std_is_trivially_move_assignable_v env (all_extents_removed_t T)
      \<and> is_nothrow_copy_assignable_v env T
          = std_is_nothrow_copy_assignable_v env (all_extents_removed_t T)
      \<and> is_nothrow_move_assignable_v env T
          = std_is_nothrow_move_assignable_v env (all_extents_removed_t T))
   \<and> (\<not> c_array T \<longrightarrow>
      is_copy_assignable_v env T = std_is_copy_assignable_v env T
      \<and> is_move_assignable_v env T = std_is_move_assignable_v env T
      \<and> is_trivially_copy_assignable_v env T = std_is_trivially_copy_assignable_v env T
      \<and> is_trivially_move_assignable_v env T = std_is_trivially_move_assignable_v env T
      \<and> is_nothrow_copy_assignable_v env T = std_is_nothrow_copy_assignable_v env T
      \<and> is_nothrow_move_assignable_v env T = std_is_nothrow_move_assignable_v env T)"
  by (simp add: is_copy_assignable_v_def is_move_assignable_v_def
      is_trivially_copy_assignable_v_def is_trivially_move_assignable_v_def
      is_nothrow_copy_assignable_v_def is_nothrow_move_assignable_v_def
      all_extents_removed_t_non_array)

theorem unary_assignability_traits_redirect_witness:
  "\<not> is_copyable_array cxx20
   \<and> is_copy_assignable_v cxx20 (plain (Array 3 (Elem T_int)))
       = std_is_copy_assignable_v cxx20 (plain (Elem T_int))
   \<and> is_copy_assignable_v cxx20 (plain (Array 3 (Elem T_int)))
   \<and> \<not> std_is_copy_assignable_v cxx20 (plain (Array 3 (Elem T_int)))
   \<and> \<not> c_array (plain (Elem T_int))
   \<and> is_copy_assignable_v cxx20 (plain (Elem T_int))
       = std_is_copy_assignable_v cxx20 (plain (Elem T_int))"
proof -
  have h: "\<not> is_copyable_array cxx20"
    by (simp add: witness_simps)
  have e: "all_extents_removed_t (plain (Array 3 (Elem T_int))) = plain (Elem T_int :: prim ctype)"
    by (simp add: witness_simps)
  have n: "\<not> c_array (plain (Elem T_int :: prim ctype))"
    by (simp add: witness_simps)
  have "is_copy_assignable_v cxx20 (plain (Array 3 (Elem T_int)))
          = std_is_copy_assignable_v cxx20 (plain (Elem T_int))"
    using unary_assignability_traits_redirect [of cxx20 "plain (Array 3 (Elem T_int))"] h e
    by simp
  moreover have "is_copy_assignable_v cxx20 (plain (Elem T_int))
          = std_is_copy_assignable_v cxx20 (plain (Elem T_int))"
    using unary_assignability_traits_redirect [of cxx20 "plain (Elem T_int)"] n
    by simp
  moreover have "std_is_copy_assignable_v cxx20 (plain (Elem T_int))"
    "\<not> std_is_copy_assignable_v cxx20 (plain (Array 3 (Elem T_int)))"
    by (simp_all add: witness_simps)
  ultimately show ?thesis
    using h n by simp
qed

subsection \<open>Pointers\<close>

text \<open>
  C9. For two pointers of a type that satisfies \<open>pointer_less_than_comparable_with\<close>,
  \<open>less_fn\<close> at run time compares the unsigned integers the pointers convert to. With a
  conversion that maps distinct pointers to distinct integers this is a strict total
  order: \<open>less_fn p p\<close> is false, and for distinct \<open>p\<close> and \<open>q\<close> exactly one of
  \<open>less_fn p q\<close> and \<open>less_fn q p\<close> holds. In constant evaluation the native \<^verbatim>\<open><\<close> is
  used.
\<close>

theorem less_fn_pointer_runtime_order:
  assumes ptr: "pointer_less_than_comparable_with env P P"
    and inj: "inj (op_uintptr ops)"
  shows "less_fn env ops False P P (Val p) (Val q) = Inr (op_uintptr ops p < op_uintptr ops q)
       \<and> less_fn env ops False P P (Val p) (Val p) = Inr False
       \<and> (p \<noteq> q \<longrightarrow>
            (\<exists>b. less_fn env ops False P P (Val p) (Val q) = Inr b
                 \<and> less_fn env ops False P P (Val q) (Val p) = Inr (\<not> b)))
       \<and> less_fn env ops True P P (Val p) (Val q) = Inr (op_lt ops p q)"
proof -
  have "\<not> c_array P"
    using ptr by (simp add: pointer_less_than_comparable_with_def)
  then have "less_requires env P P"
    using ptr by (simp add: less_requires_def all_extents_removed_t_non_array)
  then have run: "less_fn env ops ce P P (Val x) (Val y)
                    = Inr (if ce then op_lt ops x y else op_uintptr ops x < op_uintptr ops y)"
    for ce x y
    using ptr by (simp add: less_fn_def)
  have "op_uintptr ops p \<noteq> op_uintptr ops q" if "p \<noteq> q"
    using inj that by (auto dest: injD)
  then show ?thesis
    by (auto simp: run)
qed

theorem less_fn_pointer_runtime_order_witness:
  "pointer_less_than_comparable_with cxx20 ptr_lv ptr_lv
   \<and> inj (op_uintptr ptr_ops)
   \<and> less_fn cxx20 ptr_ops False ptr_lv ptr_lv (Val 4096) (Val 512) = Inr False
   \<and> less_fn cxx20 ptr_ops False ptr_lv ptr_lv (Val 512) (Val 4096) = Inr True
   \<and> less_fn cxx20 ptr_ops False ptr_lv ptr_lv (Val 512) (Val 512) = Inr False"
proof -
  have h: "pointer_less_than_comparable_with cxx20 ptr_lv ptr_lv"
    by (simp add: witness_simps)
  have i: "inj (op_uintptr ptr_ops)"
    by (simp add: ptr_ops_def inj_def)
  show ?thesis
    using h i less_fn_pointer_runtime_order [OF h i, of 4096 512]
      less_fn_pointer_runtime_order [OF h i, of 512 4096]
    by (simp add: ptr_ops_def)
qed

subsection \<open>Assignment\<close>

lemma flatten_flat_update:
  "flatten (flat_update v i x) = (flatten v)[i := x]"
  "concat (map flatten (flat_update_list vs i x)) = (concat (map flatten vs))[i := x]"
  by (induction v i x and vs i x rule: flat_update_flat_update_list.induct)
     (auto simp: list_update_append split: nat.splits)

lemma assign_loop_result:
  assumes inv: "I s"
    and put: "\<And>s v. I s \<Longrightarrow> I (lv_put l s v) \<and> lv_get l (lv_put l s v) = v"
    and src: "r = l \<or> (\<forall>s v. I s \<longrightarrow> lv_get r (lv_put l s v) = lv_get r s)"
    and len: "n \<le> length (flatten (lv_get l s))" "n \<le> length (flatten (lv_get r s))"
    and bound: "n \<le> INT_MAX" and start: "i \<le> n"
  shows "\<exists>s'. assign_loop ops n l r i s = Inr s' \<and> I s'
           \<and> length (flatten (lv_get l s')) = length (flatten (lv_get l s))
           \<and> (\<forall>j<length (flatten (lv_get l s)).
                 flatten (lv_get l s') ! j
                   = (if i \<le> j \<and> j < n
                      then op_assign ops (flatten (lv_get l s) ! j) (flatten (lv_get r s) ! j)
                      else flatten (lv_get l s) ! j))
           \<and> (r \<noteq> l \<longrightarrow> lv_get r s' = lv_get r s)"
  using inv len start
proof (induction "n - i" arbitrary: i s)
  case 0
  then show ?case by (subst assign_loop.simps) auto
next
  case (Suc d)
  let ?a = "flatten (lv_get l s)" and ?b = "flatten (lv_get r s)"
  from Suc have i: "i < n" by simp
  then have fi: "flat_index (lv_get l s) i = Some (?a ! i)" "flat_index (lv_get r s) i = Some (?b ! i)"
    and im: "i < INT_MAX"
    using Suc.prems bound by (simp_all add: flat_index_def)
  define s1 where "s1 = lv_put l s (flat_update (lv_get l s) i (op_assign ops (?a ! i) (?b ! i)))"
  have I1: "I s1" and l1: "lv_get l s1 = flat_update (lv_get l s) i (op_assign ops (?a ! i) (?b ! i))"
    using put [OF Suc.prems(1)] by (simp_all add: s1_def)
  have a1: "flatten (lv_get l s1) = ?a[i := op_assign ops (?a ! i) (?b ! i)]"
    by (simp add: l1 flatten_flat_update)
  have r1: "lv_get r s1 = (if r = l then lv_get l s1 else lv_get r s)"
    using src Suc.prems(1) by (auto simp: s1_def)
  have b1: "j \<noteq> i \<Longrightarrow> flatten (lv_get r s1) ! j = ?b ! j" for j
    using r1 a1 by (cases "r = l") auto
  have lb1: "length (flatten (lv_get r s1)) = length ?b"
    using r1 a1 by (cases "r = l") auto
  have step: "assign_loop ops n l r i s = assign_loop ops n l r (i + 1) s1"
    using i fi im by (subst assign_loop.simps) (simp add: s1_def Let_def)
  have "\<exists>s'. assign_loop ops n l r (i + 1) s1 = Inr s' \<and> I s'
           \<and> length (flatten (lv_get l s')) = length (flatten (lv_get l s1))
           \<and> (\<forall>j<length (flatten (lv_get l s1)).
                 flatten (lv_get l s') ! j
                   = (if i + 1 \<le> j \<and> j < n
                      then op_assign ops (flatten (lv_get l s1) ! j) (flatten (lv_get r s1) ! j)
                      else flatten (lv_get l s1) ! j))
           \<and> (r \<noteq> l \<longrightarrow> lv_get r s' = lv_get r s1)"
    using Suc.hyps(2) Suc.prems i I1 a1 lb1
    by (intro Suc.hyps(1)) auto
  then obtain s' where s': "assign_loop ops n l r (i + 1) s1 = Inr s'" "I s'"
    "length (flatten (lv_get l s')) = length (flatten (lv_get l s1))"
    "\<forall>j<length (flatten (lv_get l s1)).
                 flatten (lv_get l s') ! j
                   = (if i + 1 \<le> j \<and> j < n
                      then op_assign ops (flatten (lv_get l s1) ! j) (flatten (lv_get r s1) ! j)
                      else flatten (lv_get l s1) ! j)"
    "r \<noteq> l \<longrightarrow> lv_get r s' = lv_get r s1"
    by blast
  have "flatten (lv_get l s') ! j
          = (if i \<le> j \<and> j < n then op_assign ops (?a ! j) (?b ! j) else ?a ! j)"
    if "j < length ?a" for j
  proof (cases "j = i")
    case True
    then show ?thesis using s'(4) that i a1 by simp
  next
    case False
    then show ?thesis using s'(4) that a1 b1 [OF False] by auto
  qed
  then show ?case
    using s' step a1 r1 by auto
qed

lemma assign_loop_frame:
  assumes "assign_loop ops n l r i s = Inr s'" and "I s"
    and "\<And>s v. I s \<Longrightarrow> I (lv_put l s v)"
    and "\<And>s v. I s \<Longrightarrow> obs (lv_put l s v) = obs s"
  shows "obs s' = obs s"
  using assms
proof (induction ops n l r i s rule: assign_loop.induct)
  case (1 ops n l r i s)
  show ?case
  proof (cases "i = n")
    case True
    with "1.prems"(1) show ?thesis by (subst (asm) assign_loop.simps) simp
  next
    case False
    with "1.prems"(1) obtain a b where ab: "flat_index (lv_get l s) i = Some a"
      "flat_index (lv_get r s) i = Some b" "i < INT_MAX"
      by (subst (asm) assign_loop.simps) (auto split: option.splits if_splits simp: Let_def)
    let ?s1 = "lv_put l s (flat_update (lv_get l s) i (op_assign ops a b))"
    have "assign_loop ops n l r (i + 1) ?s1 = Inr s'"
      using "1.prems"(1) False ab by (subst (asm) assign_loop.simps) (simp add: Let_def)
    moreover have "I ?s1"
      using "1.prems"(2,3) by simp
    ultimately have "obs s' = obs ?s1"
      using False ab "1.prems"(3,4) by (intro "1.IH") auto
    then show ?thesis using "1.prems"(2,4) by simp
  qed
qed

lemma rref_core [simp]: "q_core (rref T) = q_core T"
  by (simp add: rref_def)


text \<open>
  C6. Let \<open>l\<close> designate an array that \<^verbatim>\<open>assign\<close> wraps and \<open>r\<close> an array of the same
  shape that satisfies the constraint of the wrapper's \<^verbatim>\<open>operator=\<close>, where \<open>r\<close> is
  \<open>l\<close> itself or an object that writes to \<open>l\<close> leave alone. With an element type whose
  \<^verbatim>\<open>==\<close> is reflexive, whose assignment leaves the left operand equal to the right
  one and whose \<^verbatim>\<open>!=\<close> negates \<^verbatim>\<open>==\<close>, the statement \<^verbatim>\<open>assign(l) = r\<close> returns
  \<open>l\<close>, and afterwards \<open>equal_to\<close> on \<open>l\<close> and \<open>r\<close> is true: the elements at every flat
  index are equal.
\<close>

theorem assign_then_equal_to:
  assumes spec: "assign_to_array_specialization env (rref L)"
    and rarr: "c_array R"
    and asg: "assignable_from env (rref L) (rref R)"
    and shape: "same_extents L R"
    and tl: "has_type L (lv_get l s)" and tr: "has_type R (lv_get r s)"
    and size: "flat_size L \<le> INT_MAX"
    and put: "\<forall>s v. lv_get l (lv_put l s v) = v"
    and src: "r = l \<or> (\<forall>s v. lv_get r (lv_put l s v) = lv_get r s)"
    and eq_req: "equal_to_requires env L R"
    and refl: "\<forall>a. op_eq ops a a"
    and copy: "\<forall>a b. op_eq ops (op_assign ops a b) b"
    and ne: "\<forall>a b. op_ne ops a b = (\<not> op_eq ops a b)"
  shows "\<exists>s'. assign_stmt env ops L R l r s = Inr (l, s')
              \<and> equal_to env ops L R (lv_get l s') (lv_get r s') = Inr True
              \<and> (\<forall>i<flat_size L.
                    op_eq ops (flatten (lv_get l s') ! i) (flatten (lv_get r s') ! i))"
proof -
  let ?n = "flat_size L"
  let ?a = "flatten (lv_get l s)" and ?b = "flatten (lv_get r s)"
  have arr: "c_array L"
    using spec by (simp add: assign_to_array_specialization_def c_array_def)
  have ll: "length ?a = ?n" and lr: "length ?b = ?n"
    using tl tr shape by (simp_all add: has_type_length_flatten same_extents_flat_size)
  have n': "flat_size (rref L) = ?n"
    by (simp add: flat_size_def)
  have "\<exists>s'. assign_loop ops ?n l r 0 s = Inr s' \<and> True
           \<and> length (flatten (lv_get l s')) = length ?a
           \<and> (\<forall>j<length ?a.
                 flatten (lv_get l s') ! j
                   = (if 0 \<le> j \<and> j < ?n then op_assign ops (?a ! j) (?b ! j) else ?a ! j))
           \<and> (r \<noteq> l \<longrightarrow> lv_get r s' = lv_get r s)"
    using put src ll lr size
    by (intro assign_loop_result [where I = "\<lambda>s. True"]) auto
  then obtain s' where s': "assign_loop ops ?n l r 0 s = Inr s'"
    "length (flatten (lv_get l s')) = ?n"
    "\<forall>j<?n. flatten (lv_get l s') ! j = op_assign ops (?a ! j) (?b ! j)"
    "r \<noteq> l \<longrightarrow> lv_get r s' = lv_get r s"
    using ll by auto
  have run: "assign_stmt env ops L R l r s = Inr (l, s')"
    using spec rarr asg s'(1)
    by (simp add: assign_stmt_def assign_def assign_toable_def assign_to_assign_def n')
  have eqs: "op_eq ops (flatten (lv_get l s') ! i) (flatten (lv_get r s') ! i)" if "i < ?n" for i
  proof (cases "r = l")
    case True
    then show ?thesis using refl by simp
  next
    case False
    then show ?thesis using s'(3,4) that copy by simp
  qed
  have lr': "length (flatten (lv_get r s')) = ?n"
    using s'(2,4) lr by (cases "r = l") auto
  have "equal_to_loop ops ?n (lv_get l s') (lv_get r s') 0 = Inr True"
    using s'(2) lr' size eqs ne by (intro equal_to_loop_all) auto
  then have "equal_to env ops L R (lv_get l s') (lv_get r s') = Inr True"
    using eq_req arr by (simp add: equal_to_def)
  with run eqs show ?thesis by blast
qed


theorem assign_then_equal_to_witness:
  "(\<exists>s'. assign_stmt cxx20 int_ops int_2x2 int_2x2 (var ''l'') (var ''r'')
            (st0(''l'' := Arr [Arr [Val 9, Val 9], Arr [Val 9, Val 9]],
                 ''r'' := Arr [Arr [Val 0, Val 1], Arr [Val 2, Val 3]]))
          = Inr (var ''l'', s')
        \<and> equal_to cxx20 int_ops int_2x2 int_2x2 (lv_get (var ''l'') s') (lv_get (var ''r'') s')
          = Inr True
        \<and> (\<forall>i<flat_size int_2x2.
              op_eq int_ops (flatten (lv_get (var ''l'') s') ! i)
                (flatten (lv_get (var ''r'') s') ! i)))
   \<and> assign_stmt cxx20 int_ops int_2x2 int_2x2 (var ''l'') (var ''r'')
            (st0(''l'' := Arr [Arr [Val 9, Val 9], Arr [Val 9, Val 9]],
                 ''r'' := Arr [Arr [Val 0, Val 1], Arr [Val 2, Val 3]]))
          = Inr (var ''l'', st0(''l'' := Arr [Arr [Val 0, Val 1], Arr [Val 2, Val 3]],
                               ''r'' := Arr [Arr [Val 0, Val 1], Arr [Val 2, Val 3]]))
   \<and> (\<exists>s'. assign_stmt cxx20 int_ops int_2x2 int_2x2 (var ''l'') (var ''l'')
            (st0(''l'' := Arr [Arr [Val 0, Val 1], Arr [Val 2, Val 3]]))
          = Inr (var ''l'', s')
        \<and> equal_to cxx20 int_ops int_2x2 int_2x2 (lv_get (var ''l'') s') (lv_get (var ''l'') s')
          = Inr True
        \<and> (\<forall>i<flat_size int_2x2.
              op_eq int_ops (flatten (lv_get (var ''l'') s') ! i)
                (flatten (lv_get (var ''l'') s') ! i)))"
proof -
  have "\<exists>s'. assign_stmt cxx20 int_ops int_2x2 int_2x2 (var ''l'') (var ''r'')
            (st0(''l'' := Arr [Arr [Val 9, Val 9], Arr [Val 9, Val 9]],
                 ''r'' := Arr [Arr [Val 0, Val 1], Arr [Val 2, Val 3]]))
          = Inr (var ''l'', s')
        \<and> equal_to cxx20 int_ops int_2x2 int_2x2 (lv_get (var ''l'') s') (lv_get (var ''r'') s')
          = Inr True
        \<and> (\<forall>i<flat_size int_2x2.
              op_eq int_ops (flatten (lv_get (var ''l'') s') ! i)
                (flatten (lv_get (var ''r'') s') ! i))"
    by (rule assign_then_equal_to) (simp_all add: witness_simps var_def)
  moreover have "assign_stmt cxx20 int_ops int_2x2 int_2x2 (var ''l'') (var ''r'')
            (st0(''l'' := Arr [Arr [Val 9, Val 9], Arr [Val 9, Val 9]],
                 ''r'' := Arr [Arr [Val 0, Val 1], Arr [Val 2, Val 3]]))
          = Inr (var ''l'', st0(''l'' := Arr [Arr [Val 0, Val 1], Arr [Val 2, Val 3]],
                               ''r'' := Arr [Arr [Val 0, Val 1], Arr [Val 2, Val 3]]))"
    by (auto simp: assign_stmt_def assign_def assign_to_assign_def assign_loop.simps
        flat_index_def var_def witness_simps)
  moreover have "\<exists>s'. assign_stmt cxx20 int_ops int_2x2 int_2x2 (var ''l'') (var ''l'')
            (st0(''l'' := Arr [Arr [Val 0, Val 1], Arr [Val 2, Val 3]]))
          = Inr (var ''l'', s')
        \<and> equal_to cxx20 int_ops int_2x2 int_2x2 (lv_get (var ''l'') s') (lv_get (var ''l'') s')
          = Inr True
        \<and> (\<forall>i<flat_size int_2x2.
              op_eq int_ops (flatten (lv_get (var ''l'') s') ! i)
                (flatten (lv_get (var ''l'') s') ! i))"
    by (rule assign_then_equal_to) (simp_all add: witness_simps var_def)
  ultimately show ?thesis by blast
qed

text \<open>
  C10. For an lvalue of a type that is not an array and has no \<^verbatim>\<open>assign_to\<close>
  specialization, \<open>assign\<close> returns the reference itself, and \<^verbatim>\<open>assign(l) = r\<close> is the
  assignment \<^verbatim>\<open>l = r\<close> of the type: same result, same state.
\<close>

theorem assign_forwards_non_array_lvalue:
  assumes "\<not> c_array L" and "\<not> user_assign_to env L" and "q_ref L = LRef"
  shows "assign env L l = Forwarded l
       \<and> assign_stmt env ops L R l r s = native_assign env ops L R l r s"
proof -
  have "rref L = L"
    using assms(3) by (simp add: rref_def)
  then have "\<not> assign_toable env (rref L)"
    using assms(1,2) by (simp add: assign_toable_def assign_to_array_specialization_def)
  then have "assign env L l = Forwarded l"
    by (simp add: assign_def)
  then show ?thesis
    using \<open>rref L = L\<close> by (simp add: assign_stmt_def)
qed

theorem assign_forwards_non_array_lvalue_witness:
  "\<not> c_array int_lv \<and> \<not> user_assign_to cxx20 int_lv \<and> q_ref int_lv = LRef
   \<and> assign cxx20 int_lv (var ''l'') = Forwarded (var ''l'' :: (string \<Rightarrow> int cval, int) lvalue)
   \<and> assign_stmt cxx20 int_ops int_lv int_lv (var ''l'') (var ''r'')
        (st0(''l'' := Val 1, ''r'' := Val 7))
       = Inr (var ''l'', st0(''l'' := Val 7, ''r'' := Val 7))"
proof -
  have h: "\<not> c_array int_lv" "\<not> user_assign_to cxx20 int_lv" "q_ref int_lv = LRef"
    by (simp_all add: witness_simps)
  have "native_assign cxx20 int_ops int_lv int_lv (var ''l'') (var ''r'')
        (st0(''l'' := Val 1, ''r'' := Val 7))
       = Inr (var ''l'', st0(''l'' := Val 7, ''r'' := Val 7))"
    by (auto simp: native_assign_def var_def witness_simps)
  then show ?thesis
    using h assign_forwards_non_array_lvalue [OF h, of "var ''l''" int_ops int_lv "var ''r''"
        "st0(''l'' := Val 1, ''r'' := Val 7)"]
    by simp
qed

subsection \<open>Elementwise assignment of listed values\<close>

lemma assign_loop_bounds:
  assumes "assign_loop ops n l r i s = Inr s'" and "I s" and "i < n"
    and "\<And>s v. I s \<Longrightarrow> I (lv_put l s v) \<and> lv_get l (lv_put l s v) = v"
    and "r = l \<or> (\<forall>s v. I s \<longrightarrow> lv_get r (lv_put l s v) = lv_get r s)"
  shows "n \<le> length (flatten (lv_get l s)) \<and> n \<le> length (flatten (lv_get r s)) \<and> n \<le> INT_MAX"
  using assms
proof (induction ops n l r i s rule: assign_loop.induct)
  case (1 ops n l r i s)
  from "1.prems"(1,3) obtain a b where ab: "flat_index (lv_get l s) i = Some a"
    "flat_index (lv_get r s) i = Some b" "i < INT_MAX"
    by (subst (asm) assign_loop.simps) (auto split: option.splits if_splits simp: Let_def)
  let ?s1 = "lv_put l s (flat_update (lv_get l s) i (op_assign ops a b))"
  have next_run: "assign_loop ops n l r (i + 1) ?s1 = Inr s'"
    using "1.prems"(1,3) ab by (subst (asm) assign_loop.simps) (simp add: Let_def)
  have il: "i < length (flatten (lv_get l s))" and ir: "i < length (flatten (lv_get r s))"
    using ab by (simp_all add: flat_index_def split: if_splits)
  show ?case
  proof (cases "i + 1 < n")
    case False
    with "1.prems"(3) have "n = i + 1" by simp
    with il ir ab(3) show ?thesis by simp
  next
    case True
    have I1: "I ?s1" and l1: "lv_get l ?s1 = flat_update (lv_get l s) i (op_assign ops a b)"
      using "1.prems"(2,4) by simp_all
    have r1: "lv_get r ?s1 = (if r = l then lv_get l ?s1 else lv_get r s)"
      using "1.prems"(2,5) by auto
    have "n \<le> length (flatten (lv_get l ?s1)) \<and> n \<le> length (flatten (lv_get r ?s1))
            \<and> n \<le> INT_MAX"
      using "1.prems"(3,4,5) ab next_run I1 True
      by (intro "1.IH") auto
    then show ?thesis
      using l1 r1 by (cases "r = l") (auto simp: flatten_flat_update)
  qed
qed

lemma elem_inv_put:
  assumes put: "\<forall>s v. lv_get t (lv_put t s v) = v" and i: "i < length xs"
    and inv: "elem_inv t i xs s"
  shows "elem_inv t i xs (lv_put (outer_elem t i) s v)
       \<and> lv_get (outer_elem t i) (lv_put (outer_elem t i) s v) = v"
  using assms by (auto simp: elem_inv_def outer_elem_def)

lemma elem_inv_frame:
  assumes "\<forall>s x. lv_get v (lv_put t s x) = lv_get v s" and "elem_inv t i xs s"
  shows "lv_get v (lv_put (outer_elem t i) s x) = lv_get v s"
  using assms by (auto simp: elem_inv_def outer_elem_def)

lemma elem_inv_list:
  assumes "elem_inv t i xs s" and "i < length xs"
  shows "lv_get t s = Arr (xs[i := lv_get (outer_elem t i) s])"
proof -
  from assms obtain ys where ys: "lv_get t s = Arr ys" "length ys = length xs"
    "\<forall>k. k \<noteq> i \<longrightarrow> ys ! k = xs ! k"
    by (auto simp: elem_inv_def)
  then have "ys = xs[i := ys ! i]"
    using assms(2) by (intro nth_equalityI) (auto simp: nth_list_update)
  with ys show ?thesis by (simp add: outer_elem_def)
qed

lemma flat_size_rref [simp]: "flat_size (rref E) = flat_size E"
  by (simp add: flat_size_def)

lemma assign_stmt_element:
  fixes t :: "('s, 'v) lvalue"
  assumes run: "assign_stmt env ops E T (outer_elem t i) v s = Inr (w, s1)"
    and obj: "lv_get t s = Arr xs" and i: "i < length xs"
    and shape: "length (flatten (xs ! i)) = flat_size E"
    and put: "\<forall>s v. lv_get t (lv_put t s v) = v"
    and indep: "\<forall>s x. lv_get v (lv_put t s x) = lv_get v s"
    and nouser: "\<not> user_assign_to env (rref E)"
  shows "\<exists>e. lv_get t s1 = Arr (xs[i := e])
            \<and> length (flatten e) = length (flatten (xs ! i))
            \<and> flatten e = map2 (op_assign ops) (flatten (xs ! i)) (flatten (lv_get v s))
            \<and> (\<forall>u :: ('s, 'v) lvalue.
                  (\<forall>s x. lv_get u (lv_put t s x) = lv_get u s) \<longrightarrow> lv_get u s1 = lv_get u s)"
proof (cases "assign_toable env (rref E)")
  case True
  let ?le = "outer_elem t i" and ?n = "flat_size E"
  let ?a = "flatten (xs ! i)" and ?b = "flatten (lv_get v s)"
  have spec: "assign_to_array_specialization env (rref E)"
    using True nouser by (simp add: assign_toable_def)
  have loop: "assign_loop ops ?n ?le v 0 s = Inr s1"
    using run True spec
    by (auto simp: assign_stmt_def assign_def assign_to_assign_def
        split: if_splits sum.splits)
  have inv: "elem_inv t i xs s"
    using obj by (auto simp: elem_inv_def)
  have laws: "elem_inv t i xs s \<Longrightarrow>
      elem_inv t i xs (lv_put ?le s x) \<and> lv_get ?le (lv_put ?le s x) = x" for s x
    using elem_inv_put [OF put i] by blast
  have src: "v = ?le \<or> (\<forall>s x. elem_inv t i xs s \<longrightarrow> lv_get v (lv_put ?le s x) = lv_get v s)"
    using elem_inv_frame [OF indep] by blast
  have get0: "lv_get ?le s = xs ! i"
    using obj by (simp add: outer_elem_def)
  have bounds: "?n \<le> length ?a \<and> ?n \<le> length ?b \<and> ?n \<le> INT_MAX"
  proof (cases "?n = 0")
    case True
    then show ?thesis by simp
  next
    case False
    then show ?thesis
      using assign_loop_bounds [OF loop inv _ laws src] get0 by simp
  qed
  have "\<exists>s'. assign_loop ops ?n ?le v 0 s = Inr s' \<and> elem_inv t i xs s'
           \<and> length (flatten (lv_get ?le s')) = length (flatten (lv_get ?le s))
           \<and> (\<forall>j<length (flatten (lv_get ?le s)).
                 flatten (lv_get ?le s') ! j
                   = (if 0 \<le> j \<and> j < ?n
                      then op_assign ops (flatten (lv_get ?le s) ! j) (flatten (lv_get v s) ! j)
                      else flatten (lv_get ?le s) ! j))
           \<and> (v \<noteq> ?le \<longrightarrow> lv_get v s' = lv_get v s)"
    using inv laws src bounds get0
    by (intro assign_loop_result [where I = "elem_inv t i xs"]) auto
  then have res: "elem_inv t i xs s1" "length (flatten (lv_get ?le s1)) = ?n"
    "\<forall>j<?n. flatten (lv_get ?le s1) ! j = op_assign ops (?a ! j) (?b ! j)"
    using loop get0 shape by auto
  have "flatten (lv_get ?le s1) = map2 (op_assign ops) ?a ?b"
    using res(2,3) bounds shape by (intro nth_equalityI) auto
  moreover have "length (flatten (lv_get ?le s1)) = length ?a"
    using res(2) shape by simp
  moreover have "lv_get t s1 = Arr (xs[i := lv_get ?le s1])"
    using res(1) i by (rule elem_inv_list)
  moreover have "lv_get u s1 = lv_get u s" if "\<forall>s x. lv_get u (lv_put t s x) = lv_get u s"
    for u :: "('s, 'v) lvalue"
    using loop inv
  proof (rule assign_loop_frame)
    show "elem_inv t i xs s \<Longrightarrow> elem_inv t i xs (lv_put ?le s x)" for s x
      using laws by blast
    show "elem_inv t i xs s \<Longrightarrow> lv_get u (lv_put ?le s x) = lv_get u s" for s x
      using elem_inv_frame [OF that] by blast
  qed
  ultimately show ?thesis by blast
next
  case False
  let ?le = "outer_elem t i"
  have nat: "native_assign env ops (rref E) T ?le v s = Inr (w, s1)"
    using run False by (simp add: assign_stmt_def assign_def)
  then obtain a b where ab: "lv_get ?le s = Val a" "lv_get v s = Val b"
    "s1 = lv_put ?le s (Val (op_assign ops a b))"
    by (auto simp: native_assign_def split: if_splits cval.splits)
  have xi: "xs ! i = Val a"
    using ab(1) obj by (simp add: outer_elem_def)
  have s1: "s1 = lv_put t s (Arr (xs[i := Val (op_assign ops a b)]))"
    using ab(3) obj by (simp add: outer_elem_def)
  have "lv_get t s1 = Arr (xs[i := Val (op_assign ops a b)])"
    using s1 put by simp
  moreover have "flatten (Val (op_assign ops a b))
                   = map2 (op_assign ops) (flatten (xs ! i)) (flatten (lv_get v s))"
    "length (flatten (Val (op_assign ops a b))) = length (flatten (xs ! i))"
    using xi ab(2) by simp_all
  moreover have "lv_get u s1 = lv_get u s" if "\<forall>s x. lv_get u (lv_put t s x) = lv_get u s"
    for u :: "('s, 'v) lvalue"
    using that s1 by simp
  ultimately show ?thesis by blast
qed

lemma assign_elements_loop_effect:
  fixes t :: "('s, 'v) lvalue"
  assumes "assign_elements_loop env ops E t i vs s = Inr s'"
    and "lv_get t s = Arr xs"
    and "\<forall>k. i \<le> k \<and> k < length xs \<longrightarrow> length (flatten (xs ! k)) = flat_size E"
    and put: "\<forall>s v. lv_get t (lv_put t s v) = v"
    and "\<forall>(T, v) \<in> set vs. \<forall>s x. lv_get v (lv_put t s x) = lv_get v s"
    and nouser: "\<not> user_assign_to env (rref (forward_deduce E))"
    and "i \<le> length xs"
  shows "\<exists>xs'. lv_get t s' = Arr xs' \<and> length xs' = length xs
            \<and> i + length vs \<le> length xs
            \<and> (\<forall>k<i. xs' ! k = xs ! k)
            \<and> (\<forall>k<length vs.
                  length (flatten (xs' ! (i + k))) = length (flatten (xs ! (i + k)))
                  \<and> flatten (xs' ! (i + k))
                    = map2 (op_assign ops) (flatten (xs ! (i + k)))
                        (flatten (lv_get (snd (vs ! k)) s)))"
  using assms(1,2,3,5,7)
proof (induction vs arbitrary: i s xs)
  case Nil
  then show ?case by simp
next
  case (Cons Tv vs)
  obtain T v where Tv: "Tv = (T, v)" by (cases Tv)
  from Cons.prems(1,2) Tv obtain w s1 where
    i: "i < length xs"
    and step: "assign_stmt env ops (forward_deduce E) T (outer_elem t i) v s = Inr (w, s1)"
    and rest: "assign_elements_loop env ops E t (i + 1) vs s1 = Inr s'"
    by (auto split: if_splits sum.splits)
  have fs: "flat_size (forward_deduce E) = flat_size E"
    by (simp add: forward_deduce_def flat_size_def remove_reference_t_def)
  have indep_v: "\<forall>s x. lv_get v (lv_put t s x) = lv_get v s"
    using Cons.prems(4) Tv by simp
  obtain e where e: "lv_get t s1 = Arr (xs[i := e])"
    "length (flatten e) = length (flatten (xs ! i))"
    "flatten e = map2 (op_assign ops) (flatten (xs ! i)) (flatten (lv_get v s))"
    "\<forall>u :: ('s, 'v) lvalue.
       (\<forall>s x. lv_get u (lv_put t s x) = lv_get u s) \<longrightarrow> lv_get u s1 = lv_get u s"
    using assign_stmt_element [OF step Cons.prems(2) i _ put indep_v nouser]
      Cons.prems(3) i fs by auto
  have "\<exists>xs'. lv_get t s' = Arr xs' \<and> length xs' = length (xs[i := e])
            \<and> (i + 1) + length vs \<le> length (xs[i := e])
            \<and> (\<forall>k<i + 1. xs' ! k = (xs[i := e]) ! k)
            \<and> (\<forall>k<length vs.
                  length (flatten (xs' ! ((i + 1) + k)))
                    = length (flatten ((xs[i := e]) ! ((i + 1) + k)))
                  \<and> flatten (xs' ! ((i + 1) + k))
                    = map2 (op_assign ops) (flatten ((xs[i := e]) ! ((i + 1) + k)))
                        (flatten (lv_get (snd (vs ! k)) s1)))"
    using rest e(1) Cons.prems(3,4) i
    by (intro Cons.IH) auto
  then obtain xs' where xs': "lv_get t s' = Arr xs'" "length xs' = length xs"
    "i + 1 + length vs \<le> length xs"
    "\<forall>k<i + 1. xs' ! k = (xs[i := e]) ! k"
    "\<forall>k<length vs. length (flatten (xs' ! ((i + 1) + k))) = length (flatten (xs ! ((i + 1) + k)))
        \<and> flatten (xs' ! ((i + 1) + k))
        = map2 (op_assign ops) (flatten (xs ! ((i + 1) + k))) (flatten (lv_get (snd (vs ! k)) s1))"
    by auto
  have vals: "lv_get (snd (vs ! k)) s1 = lv_get (snd (vs ! k)) s" if "k < length vs" for k
  proof -
    have mem: "vs ! k \<in> set (Tv # vs)" using that by simp
    have "\<forall>s x. lv_get (snd (vs ! k)) (lv_put t s x) = lv_get (snd (vs ! k)) s"
      using bspec [OF Cons.prems(4) mem] by (simp add: case_prod_beta)
    then show ?thesis using e(4) by blast
  qed
  have "length (flatten (xs' ! (i + k))) = length (flatten (xs ! (i + k)))
        \<and> flatten (xs' ! (i + k))
          = map2 (op_assign ops) (flatten (xs ! (i + k)))
              (flatten (lv_get (snd ((Tv # vs) ! k)) s))"
    if "k < length (Tv # vs)" for k
  proof (cases k)
    case 0
    then show ?thesis using xs'(4) i e(2,3) Tv by simp
  next
    case (Suc k')
    then have k': "k' < length vs" using that by simp
    have idx: "i + k = i + 1 + k'" using Suc by simp
    from xs'(5) k' have
      "length (flatten (xs' ! (i + 1 + k'))) = length (flatten (xs ! (i + 1 + k')))"
      "flatten (xs' ! (i + 1 + k'))
         = map2 (op_assign ops) (flatten (xs ! (i + 1 + k'))) (flatten (lv_get (snd (vs ! k')) s1))"
      by blast+
    then show ?thesis
      unfolding idx using Suc vals [OF k'] by simp
  qed
  then have elems: "\<forall>k<length (Tv # vs).
      length (flatten (xs' ! (i + k))) = length (flatten (xs ! (i + k)))
        \<and> flatten (xs' ! (i + k))
          = map2 (op_assign ops) (flatten (xs ! (i + k)))
              (flatten (lv_get (snd ((Tv # vs) ! k)) s))"
    by blast
  have before: "\<forall>k<i. xs' ! k = xs ! k"
    using xs'(4) by auto
  have fits: "i + length (Tv # vs) \<le> length xs"
    using xs'(3) by simp
  show ?case
    using xs'(1,2) fits before elems by blast
qed


lemma concat_singletons:
  assumes "\<forall>x \<in> set xs. length (f x) = 1"
  shows "concat (map f xs) = map (\<lambda>x. hd (f x)) xs"
  using assms
proof (induction xs)
  case Nil
  then show ?case by simp
next
  case (Cons x xs)
  then have "length (f x) = 1" by simp
  then have "f x = [hd (f x)]"
    by (cases "f x") simp_all
  with Cons show ?case by simp
qed

lemma has_type_outer:
  assumes "has_type L v" and "c_array L"
  shows "\<exists>xs. v = Arr xs \<and> length xs = std_extent_v (remove_cvref_t L)
           \<and> (\<forall>x \<in> set xs. length (flatten x) = flat_size (extent_removed_t L))"
proof -
  from assms(2) obtain n t where core: "q_core L = Array n t"
    by (cases "q_core L") (simp_all add: c_array_def)
  with assms(1) obtain xs where xs: "v = Arr xs" "length xs = n"
    "\<forall>x \<in> set xs. has_shape (extents t) x"
    by (cases v) (auto simp: has_type_def)
  then show ?thesis
    using core
    by (auto simp: std_extent_v_def remove_cvref_t_def plain_def flat_size_def
        extent_removed_t_def has_shape_length_flatten)
qed

text \<open>What a call that compiled and ran has done.\<close>

lemma assign_elements_effect:
  fixes t :: "('s, 'v) lvalue"
  assumes typed: "has_type L (lv_get t s)"
    and put: "\<forall>s v. lv_get t (lv_put t s v) = v"
    and indep: "\<forall>(T, v) \<in> set vs. \<forall>s x. lv_get v (lv_put t s x) = lv_get v s"
    and nouser: "\<not> user_assign_to env (rref (forward_deduce (extent_removed_t L)))"
  shows "(length vs \<noteq> std_extent_v (remove_cvref_t L)
            \<longrightarrow> assign_elements env ops L t vs s = Inl Ill_formed)
       \<and> (assign_elements env ops L t vs s = Inr (t', s') \<longrightarrow>
            length vs = std_extent_v (remove_cvref_t L)
            \<and> (\<exists>xs xs'. lv_get t s = Arr xs \<and> lv_get t s' = Arr xs'
                  \<and> length xs = length vs \<and> length xs' = length vs
                  \<and> (\<forall>i<length vs.
                        flatten (xs' ! i)
                          = map2 (op_assign ops) (flatten (xs ! i))
                              (flatten (lv_get (snd (vs ! i)) s))))
            \<and> (flat_size (extent_removed_t L) = 1 \<longrightarrow>
                 (\<forall>i<length vs.
                    flat_index (lv_get t s') i
                      = Some (op_assign ops (flatten (lv_get t s) ! i)
                               (hd (flatten (lv_get (snd (vs ! i)) s)))))))"
proof (rule conjI; rule impI)
  assume "length vs \<noteq> std_extent_v (remove_cvref_t L)"
  then show "assign_elements env ops L t vs s = Inl Ill_formed"
    by (simp add: assign_elements_def)
next
  assume ok: "assign_elements env ops L t vs s = Inr (t', s')"
  let ?E = "extent_removed_t L"
  from ok have arr: "c_array L"
    and count: "length vs = std_extent_v (remove_cvref_t L)"
    and loop: "assign_elements_loop env ops ?E t 0 vs s = Inr s'"
    by (auto simp: assign_elements_def split: if_splits sum.splits)
  from has_type_outer [OF typed arr] obtain xs where xs: "lv_get t s = Arr xs"
    "length xs = length vs" "\<forall>x \<in> set xs. length (flatten x) = flat_size ?E"
    using count by auto
  have "\<exists>xs'. lv_get t s' = Arr xs' \<and> length xs' = length xs
            \<and> 0 + length vs \<le> length xs
            \<and> (\<forall>k<0. xs' ! k = xs ! k)
            \<and> (\<forall>k<length vs.
                  length (flatten (xs' ! (0 + k))) = length (flatten (xs ! (0 + k)))
                  \<and> flatten (xs' ! (0 + k))
                    = map2 (op_assign ops) (flatten (xs ! (0 + k)))
                        (flatten (lv_get (snd (vs ! k)) s)))"
    using loop xs(1) _ put indep nouser
    by (rule assign_elements_loop_effect) (use xs(3) in auto)
  then obtain xs' where xs': "lv_get t s' = Arr xs'" "length xs' = length vs"
    "\<forall>k<length vs. length (flatten (xs' ! k)) = length (flatten (xs ! k))
        \<and> flatten (xs' ! k)
          = map2 (op_assign ops) (flatten (xs ! k)) (flatten (lv_get (snd (vs ! k)) s))"
    using xs(2) by auto
  have flat: "flat_index (lv_get t s') i
                = Some (op_assign ops (flatten (lv_get t s) ! i)
                         (hd (flatten (lv_get (snd (vs ! i)) s))))"
    if one: "flat_size ?E = 1" and i: "i < length vs" for i
  proof -
    have len: "\<forall>x \<in> set xs. length (flatten x) = 1"
      using xs(3) one by simp
    have len': "\<forall>x \<in> set xs'. length (flatten x) = 1"
    proof
      fix x assume "x \<in> set xs'"
      then obtain k where "k < length xs'" "x = xs' ! k"
        by (auto simp: in_set_conv_nth)
      then show "length (flatten x) = 1"
        using xs'(2,3) xs(2) len by auto
    qed
    have old: "flatten (lv_get t s) = map (\<lambda>x. hd (flatten x)) xs"
      using xs(1) concat_singletons [OF len] by simp
    have new: "flatten (lv_get t s') = map (\<lambda>x. hd (flatten x)) xs'"
      using xs'(1) concat_singletons [OF len'] by simp
    have "length (flatten (xs ! i)) = 1"
      using len i xs(2) by simp
    then obtain a where a: "flatten (xs ! i) = [a]"
      by (cases "flatten (xs ! i)") simp_all
    have step: "flatten (xs' ! i) = map2 (op_assign ops) [a] (flatten (lv_get (snd (vs ! i)) s))"
      "length (flatten (xs' ! i)) = 1"
      using xs'(3) i a by auto
    then obtain b bs where b: "flatten (lv_get (snd (vs ! i)) s) = b # bs"
      by (cases "flatten (lv_get (snd (vs ! i)) s)") simp_all
    have "hd (flatten (xs' ! i)) = op_assign ops a b"
      using step(1) b by simp
    then show ?thesis
      using i xs(2) xs'(2) old new a b by (simp add: flat_index_def)
  qed
  show "length vs = std_extent_v (remove_cvref_t L)
            \<and> (\<exists>xs xs'. lv_get t s = Arr xs \<and> lv_get t s' = Arr xs'
                  \<and> length xs = length vs \<and> length xs' = length vs
                  \<and> (\<forall>i<length vs.
                        flatten (xs' ! i)
                          = map2 (op_assign ops) (flatten (xs ! i))
                              (flatten (lv_get (snd (vs ! i)) s))))
            \<and> (flat_size (extent_removed_t L) = 1 \<longrightarrow>
                 (\<forall>i<length vs.
                    flat_index (lv_get t s') i
                      = Some (op_assign ops (flatten (lv_get t s) ! i)
                               (hd (flatten (lv_get (snd (vs ! i)) s))))))"
    using count xs(1,2) xs' flat by blast
qed

text \<open>A call with matching count, operands of the right shape and a satisfied constraint
  compiles and runs.\<close>

lemma has_type_outer_shape:
  assumes "has_type L v" and "c_array L"
  shows "\<exists>xs. v = Arr xs \<and> length xs = std_extent_v (remove_cvref_t L)
           \<and> (\<forall>x \<in> set xs. has_shape (extents (q_core (extent_removed_t L))) x)"
proof -
  from assms(2) obtain n t where core: "q_core L = Array n t"
    by (cases "q_core L") (simp_all add: c_array_def)
  with assms(1) obtain xs where xs: "v = Arr xs" "length xs = n"
    "\<forall>x \<in> set xs. has_shape (extents t) x"
    by (cases v) (auto simp: has_type_def)
  then show ?thesis
    using core
    by (auto simp: std_extent_v_def remove_cvref_t_def plain_def extent_removed_t_def)
qed

lemma has_shape_Nil: "has_shape [] v \<Longrightarrow> \<exists>a. v = Val a"
  by (cases v) simp_all

lemma c_array_extents: "c_array T = (extents (q_core T) \<noteq> [])"
  by (cases "q_core T") (simp_all add: c_array_def)

lemma assign_stmt_element_runs:
  fixes t :: "('s, 'v) lvalue"
  assumes obj: "lv_get t s = Arr xs" and i: "i < length xs"
    and shape: "has_shape (extents (q_core E)) (xs ! i)"
    and typed: "has_type T (lv_get v s)"
    and same: "same_extents E T"
    and lv: "q_ref E = LRef"
    and req: "assignable_from env E T"
    and trait: "std_assignable_from env E T \<longrightarrow> std_is_assignable_v env E T"
    and fwd: "assignable_from env E (rref T) = assignable_from env E T"
    and noref: "\<not> std_copyable env E"
    and nouser: "\<not> user_assign_to env E"
    and put: "\<forall>s v. lv_get t (lv_put t s v) = v"
    and indep: "\<forall>s x. lv_get v (lv_put t s x) = lv_get v s"
    and size: "flat_size E \<le> INT_MAX"
  shows "\<exists>s1. assign_stmt env ops E T (outer_elem t i) v s = Inr (outer_elem t i, s1)"
proof (cases "c_array E")
  case True
  let ?le = "outer_elem t i" and ?n = "flat_size E"
  have E: "rref E = E"
    using lv by (simp add: rref_def)
  have spec: "assign_to_array_specialization env E"
    using True noref by (simp add: assign_to_array_specialization_def)
  have "c_array T"
    using True same by (simp add: c_array_extents same_extents_def)
  then have viable: "c_array T \<and> assignable_from env E (rref T)"
    using req fwd by simp
  have inv: "elem_inv t i xs s"
    using obj by (auto simp: elem_inv_def)
  have laws: "elem_inv t i xs s \<Longrightarrow>
      elem_inv t i xs (lv_put ?le s x) \<and> lv_get ?le (lv_put ?le s x) = x" for s x
    using elem_inv_put [OF put i] by blast
  have src: "v = ?le \<or> (\<forall>s x. elem_inv t i xs s \<longrightarrow> lv_get v (lv_put ?le s x) = lv_get v s)"
    using elem_inv_frame [OF indep] by blast
  have get0: "lv_get ?le s = xs ! i"
    using obj by (simp add: outer_elem_def)
  have la: "length (flatten (lv_get ?le s)) = ?n"
    using shape get0 by (simp add: has_shape_length_flatten flat_size_def)
  have lb: "length (flatten (lv_get v s)) = ?n"
    using typed same by (simp add: has_type_length_flatten same_extents_flat_size)
  have "\<exists>s'. assign_loop ops ?n ?le v 0 s = Inr s' \<and> elem_inv t i xs s'
           \<and> length (flatten (lv_get ?le s')) = length (flatten (lv_get ?le s))
           \<and> (\<forall>j<length (flatten (lv_get ?le s)).
                 flatten (lv_get ?le s') ! j
                   = (if 0 \<le> j \<and> j < ?n
                      then op_assign ops (flatten (lv_get ?le s) ! j) (flatten (lv_get v s) ! j)
                      else flatten (lv_get ?le s) ! j))
           \<and> (v \<noteq> ?le \<longrightarrow> lv_get v s' = lv_get v s)"
    using inv laws src la lb size
    by (intro assign_loop_result [where I = "elem_inv t i xs"]) auto
  then obtain s1 where "assign_loop ops ?n ?le v 0 s = Inr s1"
    by blast
  then have "assign_stmt env ops E T ?le v s = Inr (?le, s1)"
    using spec viable E
    by (simp add: assign_stmt_def assign_def assign_toable_def assign_to_assign_def)
  then show ?thesis by blast
next
  case False
  let ?le = "outer_elem t i"
  have E: "rref E = E"
    using lv by (simp add: rref_def)
  have no: "\<not> assign_toable env E"
    using False nouser by (simp add: assign_toable_def assign_to_array_specialization_def)
  have "std_assignable_from env E T"
    using req False by (simp add: assignable_from_def)
  then have ok: "std_is_assignable_v env E T"
    using trait by simp
  have nil: "extents (q_core E) = []"
    using False by (simp add: c_array_extents)
  obtain a where a: "xs ! i = Val a"
    using shape nil has_shape_Nil by fastforce
  obtain b where b: "lv_get v s = Val b"
    using typed same nil has_shape_Nil by (fastforce simp: has_type_def same_extents_def)
  have "lv_get ?le s = Val a"
    using obj a by (simp add: outer_elem_def)
  then have "assign_stmt env ops E T ?le v s
               = Inr (?le, lv_put ?le s (Val (op_assign ops a b)))"
    using no ok b E by (simp add: assign_stmt_def assign_def native_assign_def)
  then show ?thesis by blast
qed

lemma forward_deduce_lref: "q_ref E = LRef \<Longrightarrow> forward_deduce E = E"
  by (simp add: forward_deduce_def)

lemma rref_lref: "q_ref E = LRef \<Longrightarrow> rref E = E"
  by (simp add: rref_def)

lemma assign_elements_loop_runs:
  fixes t :: "('s, 'v) lvalue"
  assumes obj: "lv_get t s = Arr xs"
    and fits: "i + length vs \<le> length xs"
    and shapes: "\<forall>k. i \<le> k \<and> k < length xs \<longrightarrow> has_shape (extents (q_core E)) (xs ! k)"
    and vals: "\<forall>(T, v) \<in> set vs.
        has_type T (lv_get v s) \<and> same_extents E T \<and> assignable_from env E T
        \<and> (std_assignable_from env E T \<longrightarrow> std_is_assignable_v env E T)
        \<and> assignable_from env E (rref T) = assignable_from env E T
        \<and> (\<forall>s x. lv_get v (lv_put t s x) = lv_get v s)"
    and lv: "q_ref E = LRef"
    and noref: "\<not> std_copyable env E"
    and nouser: "\<not> user_assign_to env E"
    and put: "\<forall>s v. lv_get t (lv_put t s v) = v"
    and size: "flat_size E \<le> INT_MAX"
  shows "\<exists>s'. assign_elements_loop env ops E t i vs s = Inr s'"
  using obj fits shapes vals
proof (induction vs arbitrary: i s xs)
  case Nil
  then show ?case by simp
next
  case (Cons Tv vs)
  obtain T v where Tv: "Tv = (T, v)" by (cases Tv)
  have i: "i < length xs"
    using Cons.prems(2) by simp
  have head: "has_type T (lv_get v s)" "same_extents E T" "assignable_from env E T"
    "std_assignable_from env E T \<longrightarrow> std_is_assignable_v env E T"
    "assignable_from env E (rref T) = assignable_from env E T"
    "\<forall>s x. lv_get v (lv_put t s x) = lv_get v s"
    using Cons.prems(4) Tv by simp_all
  have shape_i: "has_shape (extents (q_core E)) (xs ! i)"
    using Cons.prems(3) i by simp
  obtain s1 where step: "assign_stmt env ops E T (outer_elem t i) v s = Inr (outer_elem t i, s1)"
    using assign_stmt_element_runs [OF Cons.prems(1) i shape_i head(1,2) lv head(3,4,5)
        noref nouser put head(6) size]
    by blast
  have len_i: "length (flatten (xs ! i)) = flat_size E"
    using shape_i by (simp add: has_shape_length_flatten flat_size_def)
  have nouser': "\<not> user_assign_to env (rref E)"
    using nouser lv by (simp add: rref_lref)
  obtain e where e: "lv_get t s1 = Arr (xs[i := e])"
    "\<forall>u :: ('s, 'v) lvalue.
       (\<forall>s x. lv_get u (lv_put t s x) = lv_get u s) \<longrightarrow> lv_get u s1 = lv_get u s"
    using assign_stmt_element [OF step Cons.prems(1) i len_i put head(6) nouser']
    by blast
  have vals1: "\<forall>(T, v) \<in> set vs.
        has_type T (lv_get v s1) \<and> same_extents E T \<and> assignable_from env E T
        \<and> (std_assignable_from env E T \<longrightarrow> std_is_assignable_v env E T)
        \<and> assignable_from env E (rref T) = assignable_from env E T
        \<and> (\<forall>s x. lv_get v (lv_put t s x) = lv_get v s)"
  proof (rule ballI)
    fix x assume x: "x \<in> set vs"
    obtain T' v' where x': "x = (T', v')" by (cases x)
    have all: "has_type T' (lv_get v' s) \<and> same_extents E T' \<and> assignable_from env E T'
        \<and> (std_assignable_from env E T' \<longrightarrow> std_is_assignable_v env E T')
        \<and> assignable_from env E (rref T') = assignable_from env E T'
        \<and> (\<forall>s x. lv_get v' (lv_put t s x) = lv_get v' s)"
      using Cons.prems(4) x x' by auto
    then have "lv_get v' s1 = lv_get v' s"
      using e(2) by blast
    with all show "case x of (T, v) \<Rightarrow>
        has_type T (lv_get v s1) \<and> same_extents E T \<and> assignable_from env E T
        \<and> (std_assignable_from env E T \<longrightarrow> std_is_assignable_v env E T)
        \<and> assignable_from env E (rref T) = assignable_from env E T
        \<and> (\<forall>s x. lv_get v (lv_put t s x) = lv_get v s)"
      using x' by simp
  qed
  have "\<exists>s'. assign_elements_loop env ops E t (i + 1) vs s1 = Inr s'"
    using e(1) Cons.prems(2,3) vals1
    by (intro Cons.IH [where xs = "xs[i := e]"]) auto
  then obtain s' where "assign_elements_loop env ops E t (i + 1) vs s1 = Inr s'"
    by blast
  then have "assign_elements_loop env ops E t i (Tv # vs) s = Inr s'"
    using Tv Cons.prems(1) i step lv by (simp add: forward_deduce_lref)
  then show ?case by blast
qed

text \<open>
  C7, as stated: as many values as the array has flat elements, value \<open>i\<close> placed at
  flat index \<open>i\<close>. This fails for \<^verbatim>\<open>int a[2][3]\<close> (six flat elements): the call
  with two \<^verbatim>\<open>int[3]\<close> values is accepted; the second value does not land at flat
  index 1, which receives the second element of the first value; and the call with six
  \<^verbatim>\<open>int\<close> values is rejected.
\<close>

theorem assign_elements_count_counterexample:
  "flat_size int_2x3 = 6
   \<and> result_object (var ''a'')
        (assign_elements cxx20 int_ops int_2x3 (var ''a'')
           [(int_3, var ''x''), (int_3, var ''y'')] st_2x3)
       = Some (Arr [Arr [Val 1, Val 2, Val 3], Arr [Val 4, Val 5, Val 6]])
   \<and> flat_index (Arr [Arr [Val 1, Val 2, Val 3], Arr [Val 4, Val 5, Val 6]]) 1 = Some (2 :: int)
   \<and> assign_elements cxx20 int_ops int_2x3 (var ''a'')
        [(int_lv, var ''z''), (int_lv, var ''z''), (int_lv, var ''z''),
         (int_lv, var ''z''), (int_lv, var ''z''), (int_lv, var ''z'')] st_2x3
       = Inl Ill_formed"
  by (simp add: assign_simps witness_simps st_2x3_def st0_def)

text \<open>
  C7, amended. \<^verbatim>\<open>assign_elements\<close> on an array lvalue requires as many values as the
  outermost extent of the array (\<^verbatim>\<open>std::extent_v\<close>): a call with any other number of
  values is ill-formed. When the count matches, the values satisfy the constraint and
  are objects of the shape of an outermost element that writes to the array leave alone,
  the call returns the array and has assigned value \<open>i\<close> to the \<open>i\<close>-th outermost
  element, flat element by flat element. When the outermost elements are single flat
  elements, as in a one-dimensional array, value \<open>i\<close> is placed at flat index \<open>i\<close>.
  The hypotheses on \<open>env\<close> are facts of the language: a reference type is not
  \<^verbatim>\<open>std::copyable\<close>, \<^verbatim>\<open>std::assignable_from\<close> implies \<^verbatim>\<open>std::is_assignable_v\<close>,
  and the constraint does not tell an argument type \<^verbatim>\<open>T\<close> from \<^verbatim>\<open>T&&\<close>.
\<close>

theorem assign_elements_outermost_positional:
  fixes t :: "('s, 'v) lvalue"
  assumes arr: "c_array L" and lv: "q_ref L = LRef"
    and req: "list_all (\<lambda>(T, v). assignable_from env (extent_removed_t L) T) vs"
    and shape: "\<forall>(T, v) \<in> set vs. same_extents (extent_removed_t L) T"
    and typed: "has_type L (lv_get t s)"
    and typed_vs: "\<forall>(T, v) \<in> set vs. has_type T (lv_get v s)"
    and size: "flat_size (extent_removed_t L) \<le> INT_MAX"
    and put: "\<forall>s v. lv_get t (lv_put t s v) = v"
    and indep: "\<forall>(T, v) \<in> set vs. \<forall>s x. lv_get v (lv_put t s x) = lv_get v s"
    and nouser: "\<not> user_assign_to env (extent_removed_t L)"
    and noref: "\<not> std_copyable env (extent_removed_t L)"
    and trait: "\<forall>(T, v) \<in> set vs.
        std_assignable_from env (extent_removed_t L) T
        \<longrightarrow> std_is_assignable_v env (extent_removed_t L) T"
    and fwd: "\<forall>(T, v) \<in> set vs.
        assignable_from env (extent_removed_t L) (rref T)
        = assignable_from env (extent_removed_t L) T"
  shows "(length vs \<noteq> std_extent_v (remove_cvref_t L)
            \<longrightarrow> assign_elements env ops L t vs s = Inl Ill_formed)
       \<and> (length vs = std_extent_v (remove_cvref_t L) \<longrightarrow>
            (\<exists>s' xs xs'.
               assign_elements env ops L t vs s = Inr (t, s')
               \<and> lv_get t s = Arr xs \<and> lv_get t s' = Arr xs'
               \<and> length xs = length vs \<and> length xs' = length vs
               \<and> (\<forall>i<length vs.
                     flatten (xs' ! i)
                       = map2 (op_assign ops) (flatten (xs ! i))
                           (flatten (lv_get (snd (vs ! i)) s)))
               \<and> (flat_size (extent_removed_t L) = 1 \<longrightarrow>
                    (\<forall>i<length vs.
                       flat_index (lv_get t s') i
                         = Some (op_assign ops (flatten (lv_get t s) ! i)
                                  (hd (flatten (lv_get (snd (vs ! i)) s))))))))"
proof (rule conjI; rule impI)
  assume "length vs \<noteq> std_extent_v (remove_cvref_t L)"
  then show "assign_elements env ops L t vs s = Inl Ill_formed"
    by (simp add: assign_elements_def)
next
  assume count: "length vs = std_extent_v (remove_cvref_t L)"
  let ?E = "extent_removed_t L"
  have lvE: "q_ref ?E = LRef"
    using lv by (simp add: extent_removed_t_def)
  from has_type_outer_shape [OF typed arr] obtain xs where xs: "lv_get t s = Arr xs"
    "length xs = length vs" "\<forall>x \<in> set xs. has_shape (extents (q_core ?E)) x"
    using count by auto
  have vals: "\<forall>(T, v) \<in> set vs.
        has_type T (lv_get v s) \<and> same_extents ?E T \<and> assignable_from env ?E T
        \<and> (std_assignable_from env ?E T \<longrightarrow> std_is_assignable_v env ?E T)
        \<and> assignable_from env ?E (rref T) = assignable_from env ?E T
        \<and> (\<forall>s x. lv_get v (lv_put t s x) = lv_get v s)"
  proof (rule ballI)
    fix x assume x: "x \<in> set vs"
    obtain T v where x': "x = (T, v)" by (cases x)
    have "assignable_from env ?E T"
      using req x x' by (auto simp: list_all_iff)
    moreover have "has_type T (lv_get v s)" "same_extents ?E T"
      "std_assignable_from env ?E T \<longrightarrow> std_is_assignable_v env ?E T"
      "assignable_from env ?E (rref T) = assignable_from env ?E T"
      "\<forall>s x. lv_get v (lv_put t s x) = lv_get v s"
      using typed_vs shape trait fwd indep x x' by auto
    ultimately show "case x of (T, v) \<Rightarrow>
        has_type T (lv_get v s) \<and> same_extents ?E T \<and> assignable_from env ?E T
        \<and> (std_assignable_from env ?E T \<longrightarrow> std_is_assignable_v env ?E T)
        \<and> assignable_from env ?E (rref T) = assignable_from env ?E T
        \<and> (\<forall>s x. lv_get v (lv_put t s x) = lv_get v s)"
      using x' by simp
  qed
  have "\<exists>s'. assign_elements_loop env ops ?E t 0 vs s = Inr s'"
    using xs(1) _ _ vals lvE noref nouser put size
    by (rule assign_elements_loop_runs) (use xs(2,3) in auto)
  then obtain s' where "assign_elements_loop env ops ?E t 0 vs s = Inr s'"
    by blast
  then have run: "assign_elements env ops L t vs s = Inr (t, s')"
    using arr req count by (simp add: assign_elements_def)
  have nouser': "\<not> user_assign_to env (rref (forward_deduce ?E))"
    using nouser lvE by (simp add: forward_deduce_lref rref_lref)
  note eff = assign_elements_effect [OF typed put indep nouser',
      where ops = ops and t' = t and s' = s', THEN conjunct2, THEN mp, OF run]
  show "\<exists>s' xs xs'.
               assign_elements env ops L t vs s = Inr (t, s')
               \<and> lv_get t s = Arr xs \<and> lv_get t s' = Arr xs'
               \<and> length xs = length vs \<and> length xs' = length vs
               \<and> (\<forall>i<length vs.
                     flatten (xs' ! i)
                       = map2 (op_assign ops) (flatten (xs ! i))
                           (flatten (lv_get (snd (vs ! i)) s)))
               \<and> (flat_size (extent_removed_t L) = 1 \<longrightarrow>
                    (\<forall>i<length vs.
                       flat_index (lv_get t s') i
                         = Some (op_assign ops (flatten (lv_get t s) ! i)
                                  (hd (flatten (lv_get (snd (vs ! i)) s))))))"
    using run eff by blast
qed

theorem assign_elements_outermost_positional_witness:
  "(\<exists>s' xs xs'.
       assign_elements cxx20 int_ops int_2 (var ''a'')
         [(int_rv, var ''x''), (int_rv, var ''y'')] st_2 = Inr (var ''a'', s')
       \<and> lv_get (var ''a'') st_2 = Arr xs \<and> lv_get (var ''a'') s' = Arr xs'
       \<and> length xs = 2 \<and> length xs' = 2
       \<and> flat_index (lv_get (var ''a'') s') 0 = Some 4
       \<and> flat_index (lv_get (var ''a'') s') 1 = Some 2)
   \<and> assign_elements cxx20 int_ops int_2 (var ''a'')
        [(int_rv, var ''x''), (int_rv, var ''y'')] st_2
       = Inr (var ''a'', st_2(''a'' := Arr [Val 4, Val 2]))
   \<and> assign_elements cxx20 int_ops int_2 (var ''a'') [(int_rv, var ''x'')] st_2
       = Inl Ill_formed
   \<and> assign_elements cxx20 int_ops int_2 (var ''a'')
        [(int_rv, var ''x''), (int_rv, var ''y''), (int_rv, var ''x'')] st_2
       = Inl Ill_formed
   \<and> (\<exists>s' xs xs'.
       assign_elements cxx20 int_ops int_2x3 (var ''a'')
         [(int_3, var ''x''), (int_3, var ''y'')] st_2x3 = Inr (var ''a'', s')
       \<and> lv_get (var ''a'') st_2x3 = Arr xs \<and> lv_get (var ''a'') s' = Arr xs'
       \<and> flatten (xs' ! 0) = [1, 2, 3] \<and> flatten (xs' ! 1) = [4, 5, 6])"
proof -
  let ?vs = "[(int_rv, var ''x'' :: (string \<Rightarrow> int cval, int) lvalue), (int_rv, var ''y'')]"
  let ?ws = "[(int_3, var ''x'' :: (string \<Rightarrow> int cval, int) lvalue), (int_3, var ''y'')]"
  have one: "flat_size (extent_removed_t int_2) = 1"
    by (simp add: witness_simps)
  have "\<exists>s' xs xs'.
       assign_elements cxx20 int_ops int_2 (var ''a'') ?vs st_2 = Inr (var ''a'', s')
       \<and> lv_get (var ''a'') st_2 = Arr xs \<and> lv_get (var ''a'') s' = Arr xs'
       \<and> length xs = length ?vs \<and> length xs' = length ?vs
       \<and> (\<forall>i<length ?vs.
             flatten (xs' ! i)
               = map2 (op_assign int_ops) (flatten (xs ! i))
                   (flatten (lv_get (snd (?vs ! i)) st_2)))
       \<and> (flat_size (extent_removed_t int_2) = 1 \<longrightarrow>
            (\<forall>i<length ?vs.
               flat_index (lv_get (var ''a'') s') i
                 = Some (op_assign int_ops (flatten (lv_get (var ''a'') st_2) ! i)
                          (hd (flatten (lv_get (snd (?vs ! i)) st_2))))))"
    by (rule assign_elements_outermost_positional [THEN conjunct2, THEN mp])
       (simp_all add: witness_simps var_def st_2_def st0_def)
  then obtain s' xs xs' where a:
    "assign_elements cxx20 int_ops int_2 (var ''a'') ?vs st_2 = Inr (var ''a'', s')"
    "lv_get (var ''a'') st_2 = Arr xs" "lv_get (var ''a'') s' = Arr xs'"
    "length xs = 2" "length xs' = 2"
    "\<forall>i<length ?vs.
               flat_index (lv_get (var ''a'') s') i
                 = Some (op_assign int_ops (flatten (lv_get (var ''a'') st_2) ! i)
                          (hd (flatten (lv_get (snd (?vs ! i)) st_2))))"
    using one by auto
  have "flat_index (lv_get (var ''a'') s') 0 = Some 4"
    "flat_index (lv_get (var ''a'') s') 1 = Some 2"
    using a(6) [rule_format, of 0] a(6) [rule_format, of 1]
    by (simp_all add: var_def st_2_def int_ops_def)
  with a have first: "\<exists>s' xs xs'.
       assign_elements cxx20 int_ops int_2 (var ''a'') ?vs st_2 = Inr (var ''a'', s')
       \<and> lv_get (var ''a'') st_2 = Arr xs \<and> lv_get (var ''a'') s' = Arr xs'
       \<and> length xs = 2 \<and> length xs' = 2
       \<and> flat_index (lv_get (var ''a'') s') 0 = Some 4
       \<and> flat_index (lv_get (var ''a'') s') 1 = Some 2"
    by blast
  have run: "assign_elements cxx20 int_ops int_2 (var ''a'') ?vs st_2
               = Inr (var ''a'', st_2(''a'' := Arr [Val 4, Val 2]))"
    by (simp add: assign_simps witness_simps st_2_def st0_def fun_upd_twist)
  have short: "assign_elements cxx20 int_ops int_2 (var ''a'') [(int_rv, var ''x'')] st_2
       = Inl Ill_formed"
    by (rule assign_elements_outermost_positional [THEN conjunct1, THEN mp])
       (simp_all add: witness_simps var_def st_2_def st0_def)
  have long: "assign_elements cxx20 int_ops int_2 (var ''a'')
        [(int_rv, var ''x''), (int_rv, var ''y''), (int_rv, var ''x'')] st_2
       = Inl Ill_formed"
    by (rule assign_elements_outermost_positional [THEN conjunct1, THEN mp])
       (simp_all add: witness_simps var_def st_2_def st0_def)
  have "\<exists>s' xs xs'.
       assign_elements cxx20 int_ops int_2x3 (var ''a'') ?ws st_2x3 = Inr (var ''a'', s')
       \<and> lv_get (var ''a'') st_2x3 = Arr xs \<and> lv_get (var ''a'') s' = Arr xs'
       \<and> length xs = length ?ws \<and> length xs' = length ?ws
       \<and> (\<forall>i<length ?ws.
             flatten (xs' ! i)
               = map2 (op_assign int_ops) (flatten (xs ! i))
                   (flatten (lv_get (snd (?ws ! i)) st_2x3)))
       \<and> (flat_size (extent_removed_t int_2x3) = 1 \<longrightarrow>
            (\<forall>i<length ?ws.
               flat_index (lv_get (var ''a'') s') i
                 = Some (op_assign int_ops (flatten (lv_get (var ''a'') st_2x3) ! i)
                          (hd (flatten (lv_get (snd (?ws ! i)) st_2x3))))))"
    by (rule assign_elements_outermost_positional [THEN conjunct2, THEN mp])
       (simp_all add: witness_simps var_def st_2x3_def st0_def)
  then obtain s' xs xs' where b:
    "assign_elements cxx20 int_ops int_2x3 (var ''a'') ?ws st_2x3 = Inr (var ''a'', s')"
    "lv_get (var ''a'') st_2x3 = Arr xs" "lv_get (var ''a'') s' = Arr xs'"
    "\<forall>i<length ?ws.
             flatten (xs' ! i)
               = map2 (op_assign int_ops) (flatten (xs ! i))
                   (flatten (lv_get (snd (?ws ! i)) st_2x3))"
    by blast
  have xs: "xs = [Arr [Val 0, Val 0, Val 0], Arr [Val 0, Val 0, Val 0]]"
    using b(2) by (simp add: var_def st_2x3_def)
  have "flatten (xs' ! 0) = [1, 2, 3]" "flatten (xs' ! 1) = [4, 5, 6]"
    using b(4) [rule_format, of 0] b(4) [rule_format, of 1] xs
    by (simp_all add: var_def st_2x3_def int_ops_def)
  with b have second: "\<exists>s' xs xs'.
       assign_elements cxx20 int_ops int_2x3 (var ''a'') ?ws st_2x3 = Inr (var ''a'', s')
       \<and> lv_get (var ''a'') st_2x3 = Arr xs \<and> lv_get (var ''a'') s' = Arr xs'
       \<and> flatten (xs' ! 0) = [1, 2, 3] \<and> flatten (xs' ! 1) = [4, 5, 6]"
    by blast
  from first run short long second show ?thesis
    by blast
qed

end
